theory Spec2Isabelle
  imports Complex_Main "HOL-Library.Word"
begin

section \<open>Values of the Codec2 framework used by V4L2EncodeInterface.cpp\<close>

text \<open>
  \<open>C2Config::profile_t\<close> and \<open>C2Config::level_t\<close> are enums over \<open>uint32_t\<close>, declared in
  the framework header \<open>C2Config.h\<close>; the source compares them with \<open><\<close>, \<open><=\<close> and \<open>>=\<close>
  as unsigned 32-bit numbers. They are words here, with the enumerators the source names
  given their numeric values (AVC enumerators count up from \<open>0x5000\<close>, VP9 from \<open>0x7000\<close>,
  VP8 from \<open>0xA000\<close>).
\<close>

type_synonym profile_t = "32 word"
type_synonym level_t = "32 word"

named_theorems c2_values \<open>numeric values of the C2Config enumerators\<close>

definition PROFILE_AVC_BASELINE :: profile_t where
  [c2_values]: "PROFILE_AVC_BASELINE = 20480"
definition PROFILE_AVC_HIGH :: profile_t where
  [c2_values]: "PROFILE_AVC_HIGH = 20484"
definition PROFILE_AVC_HIGH_10 :: profile_t where
  [c2_values]: "PROFILE_AVC_HIGH_10 = 20487"
definition PROFILE_AVC_HIGH_422 :: profile_t where
  [c2_values]: "PROFILE_AVC_HIGH_422 = 20489"
definition PROFILE_AVC_ENHANCED_MULTIVIEW_DEPTH_HIGH :: profile_t where
  [c2_values]: "PROFILE_AVC_ENHANCED_MULTIVIEW_DEPTH_HIGH = 21504"
definition PROFILE_VP9_0 :: profile_t where
  [c2_values]: "PROFILE_VP9_0 = 28672"
definition PROFILE_VP9_3 :: profile_t where
  [c2_values]: "PROFILE_VP9_3 = 28675"
definition PROFILE_VP8_0 :: profile_t where
  [c2_values]: "PROFILE_VP8_0 = 40960"
definition PROFILE_VP8_3 :: profile_t where
  [c2_values]: "PROFILE_VP8_3 = 40963"

definition LEVEL_UNUSED :: level_t where
  [c2_values]: "LEVEL_UNUSED = 0"
definition LEVEL_AVC_1 :: level_t where
  [c2_values]: "LEVEL_AVC_1 = 20480"
definition LEVEL_AVC_1B :: level_t where
  [c2_values]: "LEVEL_AVC_1B = 20481"
definition LEVEL_AVC_1_1 :: level_t where
  [c2_values]: "LEVEL_AVC_1_1 = 20482"
definition LEVEL_AVC_1_2 :: level_t where
  [c2_values]: "LEVEL_AVC_1_2 = 20483"
definition LEVEL_AVC_1_3 :: level_t where
  [c2_values]: "LEVEL_AVC_1_3 = 20484"
definition LEVEL_AVC_2 :: level_t where
  [c2_values]: "LEVEL_AVC_2 = 20485"
definition LEVEL_AVC_2_1 :: level_t where
  [c2_values]: "LEVEL_AVC_2_1 = 20486"
definition LEVEL_AVC_2_2 :: level_t where
  [c2_values]: "LEVEL_AVC_2_2 = 20487"
definition LEVEL_AVC_3 :: level_t where
  [c2_values]: "LEVEL_AVC_3 = 20488"
definition LEVEL_AVC_3_1 :: level_t where
  [c2_values]: "LEVEL_AVC_3_1 = 20489"
definition LEVEL_AVC_3_2 :: level_t where
  [c2_values]: "LEVEL_AVC_3_2 = 20490"
definition LEVEL_AVC_4 :: level_t where
  [c2_values]: "LEVEL_AVC_4 = 20491"
definition LEVEL_AVC_4_1 :: level_t where
  [c2_values]: "LEVEL_AVC_4_1 = 20492"
definition LEVEL_AVC_4_2 :: level_t where
  [c2_values]: "LEVEL_AVC_4_2 = 20493"
definition LEVEL_AVC_5 :: level_t where
  [c2_values]: "LEVEL_AVC_5 = 20494"
definition LEVEL_AVC_5_1 :: level_t where
  [c2_values]: "LEVEL_AVC_5_1 = 20495"
definition LEVEL_AVC_5_2 :: level_t where
  [c2_values]: "LEVEL_AVC_5_2 = 20496"
definition LEVEL_VP9_1 :: level_t where
  [c2_values]: "LEVEL_VP9_1 = 28672"

text \<open>The value of a \<open>C2StreamProfileLevelInfo\<close> and of a \<open>C2StreamPictureSizeInfo\<close>.\<close>

record profile_level =
  profile :: profile_t
  level :: level_t

record picture_size =
  width :: "32 word"
  height :: "32 word"

text \<open>
  A setter returns a \<open>C2R\<close>: \<open>C2R::Ok()\<close>, or a \<open>BadValue\<close> setting result that names the
  offending field.
\<close>

datatype field = FieldProfile | FieldLevel

datatype C2R = Ok | BadValue field

section \<open>Floating-point values\<close>

text \<open>
  A C++ \<open>float\<close> or \<open>double\<close> is a finite real number, an infinity or a NaN. The sign of
  zero is not kept: the source never divides by a computed value nor prints one, so the two
  zeros behave alike. An arithmetic operation computes the exact real result and rounds it
  to the nearest value of the format, ties to even: \<open>fl_round p emin emax\<close> for precision
  \<open>p\<close>, least subnormal \<open>2 ^ emin\<close> and overflow from \<open>2 ^ emax\<close> on.
\<close>

datatype fp = Finite real | PInf | NInf | NaN

fun bitlength :: "nat \<Rightarrow> nat" where
  "bitlength n = (if n = 0 then 0 else Suc (bitlength (n div 2)))"

declare bitlength.simps [simp del]

definition ilog2 :: "real \<Rightarrow> int" where
  \<comment> \<open>the integer \<open>k\<close> with \<open>2 ^ k \<le> x < 2 ^ (k + 1)\<close>, for positive \<open>x\<close>\<close>
  "ilog2 x = (if 1 \<le> x then int (bitlength (nat \<lfloor>x\<rfloor>)) - 1
              else - int (bitlength (nat (\<lceil>1 / x\<rceil> - 1))))"

definition rne :: "real \<Rightarrow> int" where
  \<comment> \<open>round to the nearest integer, ties to the even one\<close>
  "rne x = (let f = \<lfloor>x\<rfloor>; d = x - of_int f
            in if d < 1 / 2 then f else if 1 / 2 < d then f + 1
               else if even f then f else f + 1)"

definition fl_round :: "nat \<Rightarrow> int \<Rightarrow> int \<Rightarrow> real \<Rightarrow> fp" where
  "fl_round p emin emax x =
     (if x = 0 then Finite 0
      else let e = max (ilog2 \<bar>x\<bar> - int p + 1) emin;
               r = of_int (rne (x / 2 powi e)) * 2 powi e
           in if 2 powi emax \<le> \<bar>r\<bar> then (if 0 < x then PInf else NInf) else Finite r)"

definition round32 :: "real \<Rightarrow> fp" where
  "round32 = fl_round 24 (- 149) 128"

definition round64 :: "real \<Rightarrow> fp" where
  "round64 = fl_round 53 (- 1074) 1024"

fun fp_less :: "fp \<Rightarrow> fp \<Rightarrow> bool" where
  "fp_less NaN _ = False"
| "fp_less _ NaN = False"
| "fp_less (Finite x) (Finite y) = (x < y)"
| "fp_less _ NInf = False"
| "fp_less PInf _ = False"
| "fp_less NInf _ = True"
| "fp_less _ PInf = True"

fun fp_le :: "fp \<Rightarrow> fp \<Rightarrow> bool" where
  "fp_le NaN _ = False"
| "fp_le _ NaN = False"
| "fp_le (Finite x) (Finite y) = (x \<le> y)"
| "fp_le NInf _ = True"
| "fp_le _ PInf = True"
| "fp_le _ NInf = False"
| "fp_le PInf _ = False"

definition fp_inf :: "bool \<Rightarrow> fp" where
  \<comment> \<open>the infinity of the given sign (\<open>True\<close> is negative)\<close>
  "fp_inf neg = (if neg then NInf else PInf)"

fun fp_mul :: "(real \<Rightarrow> fp) \<Rightarrow> fp \<Rightarrow> fp \<Rightarrow> fp" where
  "fp_mul rnd NaN _ = NaN"
| "fp_mul rnd _ NaN = NaN"
| "fp_mul rnd (Finite x) (Finite y) = rnd (x * y)"
| "fp_mul rnd (Finite x) PInf = (if x = 0 then NaN else fp_inf (x < 0))"
| "fp_mul rnd (Finite x) NInf = (if x = 0 then NaN else fp_inf (0 < x))"
| "fp_mul rnd PInf (Finite y) = (if y = 0 then NaN else fp_inf (y < 0))"
| "fp_mul rnd NInf (Finite y) = (if y = 0 then NaN else fp_inf (0 < y))"
| "fp_mul rnd PInf PInf = PInf"
| "fp_mul rnd PInf NInf = NInf"
| "fp_mul rnd NInf PInf = NInf"
| "fp_mul rnd NInf NInf = PInf"

section \<open>H264ProfileLevelSetter\<close>

text \<open>Table A-1, as the source's \<open>kLimits\<close>.\<close>

record LevelLimits =
  limit_level :: level_t
  maxMBPS :: fp
  maxFS :: "64 word"
  maxBR :: "32 word"

definition mkLimits :: "level_t \<Rightarrow> real \<Rightarrow> 64 word \<Rightarrow> 32 word \<Rightarrow> LevelLimits" where
  "mkLimits l m f b = \<lparr>limit_level = l, maxMBPS = Finite m, maxFS = f, maxBR = b\<rparr>"

definition kLimits :: "LevelLimits list" where
  "kLimits =
    [mkLimits LEVEL_AVC_1 1485 99 64000,
     mkLimits LEVEL_AVC_1B 1485 99 128000,
     mkLimits LEVEL_AVC_1_1 3000 396 192000,
     mkLimits LEVEL_AVC_1_2 6000 396 384000,
     mkLimits LEVEL_AVC_1_3 11880 396 768000,
     mkLimits LEVEL_AVC_2 11880 396 2000000,
     mkLimits LEVEL_AVC_2_1 19800 792 4000000,
     mkLimits LEVEL_AVC_2_2 20250 1620 4000000,
     mkLimits LEVEL_AVC_3 40500 1620 10000000,
     mkLimits LEVEL_AVC_3_1 108000 3600 14000000,
     mkLimits LEVEL_AVC_3_2 216000 5120 20000000,
     mkLimits LEVEL_AVC_4 245760 8192 20000000,
     mkLimits LEVEL_AVC_4_1 245760 8192 50000000,
     mkLimits LEVEL_AVC_4_2 522240 8704 50000000,
     mkLimits LEVEL_AVC_5 589824 22080 135000000,
     mkLimits LEVEL_AVC_5_1 983040 36864 240000000,
     mkLimits LEVEL_AVC_5_2 2073600 36864 240000000]"

text \<open>
  \<open>info.F(info.v.x).supportsAtAll(v)\<close> asks whether \<open>v\<close> is one of the values the field was
  declared with (\<open>oneOf\<close>); the declared values are a list here.
\<close>

definition supportsAtAll :: "32 word list \<Rightarrow> 32 word \<Rightarrow> bool" where
  "supportsAtAll values v = (v \<in> set values)"

text \<open>
  Lines 120 to 122: \<open>width + 15\<close> and \<open>height + 15\<close> are computed in \<open>uint32_t\<close>, the
  quotients are multiplied in \<open>uint64_t\<close>; the product is converted to \<open>float\<close> and
  multiplied by the frame rate in \<open>float\<close>.
\<close>

definition targetFS :: "picture_size \<Rightarrow> 64 word" where
  "targetFS videoSize =
     ucast ((width videoSize + 15) div 16) * ucast ((height videoSize + 15) div 16)"

definition targetMBPS :: "picture_size \<Rightarrow> fp \<Rightarrow> fp" where
  "targetMBPS videoSize frameRate =
     fp_mul round32 (round32 (real (unat (targetFS videoSize)))) frameRate"

text \<open>
  Table A-2, lines 143 to 150. \<open>maxBR *= 4\<close> and \<open>maxBR *= 3\<close> are \<open>uint32_t\<close>
  multiplications. \<open>maxBR * 5.0 / 4.0\<close> is computed in \<open>double\<close>, exactly (the operand has
  32 bits), and converted back to \<open>uint32_t\<close> by truncation.
\<close>

definition profile_maxBR :: "profile_t \<Rightarrow> 32 word \<Rightarrow> 32 word" where
  "profile_maxBR prof br =
     (if PROFILE_AVC_HIGH_422 \<le> prof then br * 4
      else if PROFILE_AVC_HIGH_10 \<le> prof then br * 3
      else if PROFILE_AVC_HIGH \<le> prof then of_nat (unat br * 5 div 4)
      else br)"


text \<open>The test of line 152.\<close>

definition meets :: "profile_t \<Rightarrow> 64 word \<Rightarrow> fp \<Rightarrow> 32 word \<Rightarrow> LevelLimits \<Rightarrow> bool" where
  "meets prof tfs tmbps bitrate limit =
     (tfs \<le> maxFS limit \<and> fp_le tmbps (maxMBPS limit)
      \<and> bitrate \<le> profile_maxBR prof (maxBR limit))"

text \<open>
  The loop of lines 135 to 178 over the rows still to visit. It returns the row at which
  the loop breaks (\<open>None\<close> when it runs to the end, that is \<open>found\<close> stays false) and the
  value of \<open>needsUpdate\<close> at that point. \<open>lvl\<close> is \<open>info.v.level\<close>, which the loop only
  writes when it breaks.
\<close>

fun scan :: "level_t list \<Rightarrow> profile_t \<Rightarrow> 64 word \<Rightarrow> fp \<Rightarrow> 32 word \<Rightarrow> level_t \<Rightarrow>
    LevelLimits list \<Rightarrow> bool \<Rightarrow> LevelLimits option \<times> bool" where
  "scan levels prof tfs tmbps bitrate lvl [] needsUpdate = (None, needsUpdate)"
| "scan levels prof tfs tmbps bitrate lvl (limit # rest) needsUpdate =
     (if \<not> supportsAtAll levels (limit_level limit)
      then scan levels prof tfs tmbps bitrate lvl rest needsUpdate
      else if meets prof tfs tmbps bitrate limit then (Some limit, needsUpdate)
      else scan levels prof tfs tmbps bitrate lvl rest
             (if lvl \<le> limit_level limit then True else needsUpdate))"

text \<open>
  The setter. Its state is the function-local static \<open>lowestConfigLevel\<close>, passed in and
  returned; \<open>profiles\<close> and \<open>levels\<close> are the values the profile and the level field
  support. The result is the \<open>C2R\<close>, the static after the call and \<open>info\<close> after the call.
  \<open>adopted\<close> is \<open>info\<close> after lines 81 to 91, or \<open>None\<close> when they return at line 89;
  the static is written at line 163, before line 168 overwrites the level.
\<close>

definition H264ProfileLevelSetter :: "level_t \<Rightarrow> profile_t list \<Rightarrow> level_t list \<Rightarrow>
    profile_level \<Rightarrow> picture_size \<Rightarrow> fp \<Rightarrow> 32 word \<Rightarrow> C2R \<times> level_t \<times> profile_level" where
  "H264ProfileLevelSetter lowestConfigLevel profiles levels info videoSize frameRate bitrate =
     (let minProfile = PROFILE_AVC_BASELINE;
          adopted =
            (if \<not> supportsAtAll profiles (profile info) \<or> profile info < minProfile
             then (if supportsAtAll profiles minProfile
                   then Some (info\<lparr>profile := minProfile\<rparr>)
                   else None)
             else Some info)
      in case adopted of
           None \<Rightarrow> (BadValue FieldProfile, lowestConfigLevel, info)
         | Some info1 \<Rightarrow>
             let tfs = targetFS videoSize;
                 tmbps = targetMBPS videoSize frameRate;
                 info2 = (if lowestConfigLevel \<noteq> LEVEL_UNUSED
                             \<and> lowestConfigLevel < level info1
                          then info1\<lparr>level := lowestConfigLevel\<rparr> else info1);
                 needsUpdate = (\<not> supportsAtAll levels (level info2))
             in case scan levels (profile info2) tfs tmbps bitrate (level info2) kLimits
                       needsUpdate of
                  (None, _) \<Rightarrow> (BadValue FieldLevel, lowestConfigLevel, info2)
                | (Some limit, True) \<Rightarrow>
                    (Ok, level info2, info2\<lparr>level := limit_level limit\<rparr>)
                | (Some limit, False) \<Rightarrow> (Ok, lowestConfigLevel, info2))"

text \<open>The levels the H264 interface declares for the level field (lines 335 to 342).\<close>

definition h264_levels :: "level_t list" where
  "h264_levels =
    [LEVEL_AVC_1, LEVEL_AVC_1B, LEVEL_AVC_1_1, LEVEL_AVC_1_2, LEVEL_AVC_1_3, LEVEL_AVC_2,
     LEVEL_AVC_2_1, LEVEL_AVC_2_2, LEVEL_AVC_3, LEVEL_AVC_3_1, LEVEL_AVC_3_2, LEVEL_AVC_4,
     LEVEL_AVC_4_1, LEVEL_AVC_4_2, LEVEL_AVC_5, LEVEL_AVC_5_1]"

text \<open>
  A row is a candidate when the loop can stop at it: its level is supported (line 136) and
  it passes the test of line 152.
\<close>

definition candidate :: "level_t list \<Rightarrow> profile_t \<Rightarrow> 64 word \<Rightarrow> fp \<Rightarrow> 32 word \<Rightarrow>
    LevelLimits \<Rightarrow> bool" where
  "candidate levels prof tfs tmbps bitrate limit =
     (supportsAtAll levels (limit_level limit) \<and> meets prof tfs tmbps bitrate limit)"

text \<open>
  The level the loop starts from: the remembered one when it is set and strictly lower
  than the proposed one (lines 126 to 128).
\<close>

definition start_level :: "level_t \<Rightarrow> level_t \<Rightarrow> level_t" where
  "start_level lowestConfigLevel proposed =
     (if lowestConfigLevel \<noteq> LEVEL_UNUSED \<and> lowestConfigLevel < proposed
      then lowestConfigLevel else proposed)"

text \<open>The profile after lines 81 to 91, when they do not return.\<close>

definition adopted_profile :: "profile_t list \<Rightarrow> profile_t \<Rightarrow> profile_t" where
  "adopted_profile profiles p =
     (if \<not> supportsAtAll profiles p \<or> p < PROFILE_AVC_BASELINE then PROFILE_AVC_BASELINE
      else p)"

subsection \<open>The static across calls\<close>






section \<open>VP9ProfileLevelSetter\<close>

definition VP9ProfileLevelSetter :: "profile_t list \<Rightarrow> profile_level \<Rightarrow> picture_size \<Rightarrow> fp \<Rightarrow>
    32 word \<Rightarrow> C2R \<times> profile_level" where
  "VP9ProfileLevelSetter profiles info videoSize frameRate bitrate =
     (let defaultMinProfile = PROFILE_VP9_0 in
      if \<not> supportsAtAll profiles (profile info) \<or> profile info < defaultMinProfile
      then (if supportsAtAll profiles defaultMinProfile
            then (Ok, info\<lparr>profile := defaultMinProfile\<rparr>)
            else (BadValue FieldProfile, info))
      else (Ok, info))"

section \<open>IntraRefreshPeriodSetter\<close>

text \<open>
  \<open>C2StreamIntraRefreshTuning\<close> holds a mode (an enum over \<open>uint32_t\<close> with the two
  enumerators below) and a \<open>float\<close> period.
\<close>

definition INTRA_REFRESH_DISABLED :: "32 word" where
  [c2_values]: "INTRA_REFRESH_DISABLED = 0"
definition INTRA_REFRESH_ARBITRARY :: "32 word" where
  [c2_values]: "INTRA_REFRESH_ARBITRARY = 1"

record intra_refresh =
  mode :: "32 word"
  period :: fp

definition IntraRefreshPeriodSetter :: "intra_refresh \<Rightarrow> C2R \<times> intra_refresh" where
  "IntraRefreshPeriodSetter p =
     (if fp_less (period p) (Finite 1)
      then (Ok, p\<lparr>mode := INTRA_REFRESH_DISABLED, period := Finite 0\<rparr>)
      else (Ok, p\<lparr>mode := INTRA_REFRESH_ARBITRARY\<rparr>))"

section \<open>Initialize\<close>

datatype VideoCodec = H264 | VP8 | VP9

text \<open>
  The three encoder names are constants of \<open>V4L2ComponentName\<close>, declared outside this
  file; they are a parameter of the functions that read them. \<open>V4L2ComponentName\<close> below
  is one value of the parameter, the names the encoders are registered under.
\<close>

record component_names =
  kH264Encoder :: string
  kVP8Encoder :: string
  kVP9Encoder :: string

definition V4L2ComponentName :: component_names where
  "V4L2ComponentName =
     \<lparr>kH264Encoder = ''c2.v4l2.avc.encoder'', kVP8Encoder = ''c2.v4l2.vp8.encoder'',
      kVP9Encoder = ''c2.v4l2.vp9.encoder''\<rparr>"

definition getCodecFromComponentName :: "component_names \<Rightarrow> string \<Rightarrow> VideoCodec option" where
  "getCodecFromComponentName names name =
     (if name = kH264Encoder names then Some H264
      else if name = kVP8Encoder names then Some VP8
      else if name = kVP9Encoder names then Some VP9
      else None)"

fun IsValidProfileForCodec :: "VideoCodec \<Rightarrow> profile_t \<Rightarrow> bool" where
  "IsValidProfileForCodec H264 p =
     (PROFILE_AVC_BASELINE \<le> p \<and> p \<le> PROFILE_AVC_ENHANCED_MULTIVIEW_DEPTH_HIGH)"
| "IsValidProfileForCodec VP8 p = (PROFILE_VP8_0 \<le> p \<and> p \<le> PROFILE_VP8_3)"
| "IsValidProfileForCodec VP9 p = (PROFILE_VP9_0 \<le> p \<and> p \<le> PROFILE_VP9_3)"

datatype c2_status_t = C2_OK | C2_BAD_VALUE | C2_CORRUPTED

text \<open>
  An entry of \<open>V4L2Device::SupportedEncodeProfiles\<close>, with the two fields the source reads.
\<close>

record SupportedEncodeProfile =
  sp_profile :: profile_t
  max_resolution :: "int \<times> int"

text \<open>The loop of lines 266 to 275, for the list \<open>profiles\<close>.\<close>

definition compile_profiles :: "VideoCodec \<Rightarrow> SupportedEncodeProfile list \<Rightarrow> profile_t list" where
  "compile_profiles codec supported_profiles =
     map sp_profile (filter (\<lambda>sp. IsValidProfileForCodec codec (sp_profile sp)) supported_profiles)"

text \<open>
  What \<open>Initialize\<close> leaves behind: \<open>mInitStatus\<close>, and when parameters were added, the
  codec, the values of the profile field and the default of the profile-level parameter
  (for VP8 its constant value). \<open>V4L2Device::create()\<close> returns a null pointer or a device,
  which answers \<open>getSupportedEncodeProfiles()\<close> with a list: the device is an option of
  that list. The parameters that depend on nothing of this (sizes, rates, allocators) are
  left out, and so is the \<open>else\<close> of lines 374 to 378, which no codec reaches.
\<close>

record interface_config =
  config_codec :: VideoCodec
  config_profiles :: "profile_t list"
  config_default :: profile_level

definition Initialize :: "component_names \<Rightarrow> SupportedEncodeProfile list option \<Rightarrow> string \<Rightarrow>
    c2_status_t \<times> interface_config option" where
  "Initialize names device name =
     (case device of
        None \<Rightarrow> (C2_CORRUPTED, None)
      | Some supported_profiles \<Rightarrow>
          (case getCodecFromComponentName names name of
             None \<Rightarrow> (C2_BAD_VALUE, None)
           | Some c \<Rightarrow>
               let ps = compile_profiles c supported_profiles in
               if ps = [] then (C2_BAD_VALUE, None)
               else
                 (C2_OK,
                  Some \<lparr>config_codec = c, config_profiles = ps,
                        config_default =
                          (case c of
                             H264 \<Rightarrow> \<lparr>profile = Min (set ps), level = LEVEL_AVC_4_1\<rparr>
                           | VP8 \<Rightarrow> \<lparr>profile = PROFILE_VP8_0, level = LEVEL_UNUSED\<rparr>
                           | VP9 \<Rightarrow> \<lparr>profile = Min (set ps), level = LEVEL_VP9_1\<rparr>)\<rparr>)))"

section \<open>getKeyFramePeriod\<close>

text \<open>
  \<open>mKeyFramePeriodUs->value\<close> is an \<open>int64_t\<close>, \<open>mFrameRate->value\<close> a \<open>float\<close>. The
  arithmetic of line 458 is in \<open>double\<close>. \<open>std::min(a, b)\<close> is \<open>b < a ? b : a\<close> and
  \<open>std::max(a, b)\<close> is \<open>a < b ? b : a\<close>; \<open>std::round\<close> rounds halfway cases away from zero.
  The conversion of a \<open>double\<close> to \<open>uint32_t\<close> truncates, and is undefined (\<open>None\<close>) when
  the truncated value is not a \<open>uint32_t\<close>. A zero divisor counts as positive zero in
  \<open>fp_div\<close>; the source divides by \<open>1e6\<close> only.
\<close>

fun fp_div :: "(real \<Rightarrow> fp) \<Rightarrow> fp \<Rightarrow> fp \<Rightarrow> fp" where
  "fp_div rnd NaN _ = NaN"
| "fp_div rnd _ NaN = NaN"
| "fp_div rnd (Finite x) (Finite y) =
     (if y = 0 then (if x = 0 then NaN else fp_inf (x < 0)) else rnd (x / y))"
| "fp_div rnd (Finite x) _ = Finite 0"
| "fp_div rnd PInf (Finite y) = fp_inf (y < 0)"
| "fp_div rnd NInf (Finite y) = fp_inf (0 \<le> y)"
| "fp_div rnd _ _ = NaN"

definition c_round :: "real \<Rightarrow> int" where
  "c_round x = (if 0 \<le> x then \<lfloor>x + 1 / 2\<rfloor> else - \<lfloor>- x + 1 / 2\<rfloor>)"

fun fp_round :: "fp \<Rightarrow> fp" where
  "fp_round (Finite x) = Finite (of_int (c_round x))"
| "fp_round v = v"

definition fp_min :: "fp \<Rightarrow> fp \<Rightarrow> fp" where
  "fp_min a b = (if fp_less b a then b else a)"

definition fp_max :: "fp \<Rightarrow> fp \<Rightarrow> fp" where
  "fp_max a b = (if fp_less a b then b else a)"

definition trunc_toward_zero :: "real \<Rightarrow> int" where
  "trunc_toward_zero x = (if 0 \<le> x then \<lfloor>x\<rfloor> else \<lceil>x\<rceil>)"

fun double_to_uint32 :: "fp \<Rightarrow> 32 word option" where
  "double_to_uint32 (Finite x) =
     (let t = trunc_toward_zero x
      in if 0 \<le> t \<and> t < 2 ^ 32 then Some (word_of_int t) else None)"
| "double_to_uint32 _ = None"

definition INT64_MAX :: "64 word" where
  "INT64_MAX = 9223372036854775807"

definition UINT32_MAX :: real where
  "UINT32_MAX = 4294967295"

definition key_frame_period_double :: "64 word \<Rightarrow> fp \<Rightarrow> fp" where
  \<comment> \<open>line 458\<close>
  "key_frame_period_double keyFramePeriodUs frameRate =
     fp_mul round64
       (fp_div round64 (round64 (real_of_int (sint keyFramePeriodUs))) (Finite 1000000))
       frameRate"

definition getKeyFramePeriod :: "64 word \<Rightarrow> fp \<Rightarrow> 32 word option" where
  "getKeyFramePeriod keyFramePeriodUs frameRate =
     (if sint keyFramePeriodUs < 0 \<or> keyFramePeriodUs = INT64_MAX then Some 0
      else let period = key_frame_period_double keyFramePeriodUs frameRate
           in double_to_uint32
                (fp_max (fp_min (fp_round period) (Finite UINT32_MAX)) (Finite 1)))"

section \<open>Properties of the floating-point model\<close>

text \<open>
  \<open>ilog2\<close> is the binary exponent, \<open>rne\<close> is within one half of its argument, and
  \<open>fl_round\<close> never yields a NaN, stays within half a unit in the last place, and yields a
  finite value when twice the bound on its argument is below the overflow threshold.
\<close>

lemma bitlength_upper: "n < 2 ^ bitlength n"
proof (induction n rule: bitlength.induct)
  case (1 n)
  show ?case
  proof (cases "n = 0")
    case True
    then show ?thesis by (simp add: bitlength.simps)
  next
    case False
    from 1[OF False] have "n div 2 < 2 ^ bitlength (n div 2)" .
    then have "n < 2 * 2 ^ bitlength (n div 2)" by linarith
    with False show ?thesis by (subst bitlength.simps) simp
  qed
qed

lemma bitlength_lower: "0 < n \<Longrightarrow> 2 ^ (bitlength n - 1) \<le> n"
proof (induction n rule: bitlength.induct)
  case (1 n)
  then have n: "n \<noteq> 0" by simp
  show ?case
  proof (cases "n div 2 = 0")
    case True
    with n have "bitlength n = 1" by (simp add: bitlength.simps[of n] bitlength.simps[of 0])
    with 1(2) show ?thesis by simp
  next
    case False
    with 1(1)[OF n] have ih: "2 ^ (bitlength (n div 2) - 1) \<le> n div 2" by simp
    from False have "0 < bitlength (n div 2)" by (subst bitlength.simps) simp
    then have "bitlength n - 1 = Suc (bitlength (n div 2) - 1)"
      using n by (simp add: bitlength.simps[of n])
    then have "(2::nat) ^ (bitlength n - 1) = 2 * 2 ^ (bitlength (n div 2) - 1)" by simp
    with ih show ?thesis by linarith
  qed
qed

lemma bitlength_pos: "0 < n \<Longrightarrow> 0 < bitlength n"
  by (subst bitlength.simps) simp

lemma bitlength_upper_real: "real n + 1 \<le> 2 ^ bitlength n"
proof -
  have "Suc n \<le> 2 ^ bitlength n" using bitlength_upper[of n] by simp
  then have "real (Suc n) \<le> real (2 ^ bitlength n)" by (simp only: of_nat_le_iff)
  then show ?thesis by simp
qed

lemma bitlength_lower_real: "0 < n \<Longrightarrow> 2 ^ (bitlength n - 1) \<le> real n"
proof -
  assume "0 < n"
  then have "real (2 ^ (bitlength n - 1)) \<le> real n"
    using bitlength_lower[of n] by (simp only: of_nat_le_iff)
  then show ?thesis by simp
qed

lemma ilog2_bounds:
  assumes "0 < x"
  shows "2 powi ilog2 x \<le> x" and "x < 2 powi (ilog2 x + 1)"
proof -
  show "2 powi ilog2 x \<le> x"
  proof (cases "1 \<le> x")
    case True
    define n where "n = nat \<lfloor>x\<rfloor>"
    from True have rn: "real n = of_int \<lfloor>x\<rfloor>" by (simp add: n_def)
    from True have n: "0 < n" "real n \<le> x" unfolding rn by (simp_all add: n_def)
    from bitlength_pos[OF n(1)] have "ilog2 x = int (bitlength n - 1)"
      using True by (simp add: ilog2_def n_def)
    then have "(2::real) powi ilog2 x = 2 ^ (bitlength n - 1)" by simp
    also have "\<dots> \<le> real n" by (rule bitlength_lower_real[OF n(1)])
    finally show ?thesis using n(2) by simp
  next
    case False
    define m where "m = nat (\<lceil>1 / x\<rceil> - 1)"
    from False assms have "1 < 1 / x" by simp
    then have "0 \<le> \<lceil>1 / x\<rceil> - 1" by linarith
    then have rm: "real m = of_int \<lceil>1 / x\<rceil> - 1"
      unfolding m_def by (simp only: of_nat_nat of_int_diff of_int_1)
    have c: "1 / x \<le> real m + 1" unfolding rm by linarith
    have "real m + 1 \<le> 2 ^ bitlength m" by (rule bitlength_upper_real)
    with c have "1 / x \<le> 2 ^ bitlength m" by linarith
    with assms have "1 / 2 ^ bitlength m \<le> x"
      by (simp add: field_simps)
    moreover from False have "ilog2 x = - int (bitlength m)" by (simp add: ilog2_def m_def)
    ultimately show ?thesis by (simp add: power_int_minus_divide)
  qed
  show "x < 2 powi (ilog2 x + 1)"
  proof (cases "1 \<le> x")
    case True
    define n where "n = nat \<lfloor>x\<rfloor>"
    from True have rn: "real n = of_int \<lfloor>x\<rfloor>" by (simp add: n_def)
    from True have n: "0 < n" "x < real n + 1" unfolding rn by (simp add: n_def, linarith)
    from bitlength_pos[OF n(1)] have "ilog2 x + 1 = int (bitlength n)"
      using True by (simp add: ilog2_def n_def)
    then have "(2::real) powi (ilog2 x + 1) = 2 ^ bitlength n" by simp
    moreover have "real n + 1 \<le> 2 ^ bitlength n" by (rule bitlength_upper_real)
    ultimately show ?thesis using n(2) by simp
  next
    case False
    define m where "m = nat (\<lceil>1 / x\<rceil> - 1)"
    from False assms have gt: "1 < 1 / x" by simp
    then have "0 \<le> \<lceil>1 / x\<rceil> - 1" by linarith
    then have rm: "real m = of_int \<lceil>1 / x\<rceil> - 1"
      unfolding m_def by (simp only: of_nat_nat of_int_diff of_int_1)
    from gt have m: "0 < m" "real m < 1 / x" unfolding rm by (simp add: m_def, linarith)
    from bitlength_lower_real[OF m(1)] have "2 ^ (bitlength m - 1) \<le> real m" .
    with m(2) have "2 ^ (bitlength m - 1) < 1 / x" by linarith
    with assms have "x < 1 / 2 ^ (bitlength m - 1)" by (simp add: field_simps)
    moreover from False bitlength_pos[OF m(1)]
    have "ilog2 x + 1 = - int (bitlength m - 1)" by (simp add: ilog2_def m_def)
    ultimately show ?thesis by (simp add: power_int_minus_divide)
  qed
qed

lemma rne_near: "\<bar>of_int (rne x) - x\<bar> \<le> 1 / 2"
  unfolding rne_def Let_def by (simp; linarith)

lemma fl_round_not_NaN: "fl_round p emin emax x \<noteq> NaN"
  by (simp add: fl_round_def Let_def)

text \<open>The rounded value is within half a unit in the last place of the exact one.\<close>

lemma fl_round_error:
  assumes "fl_round p emin emax x = Finite r"
  shows "\<bar>r - x\<bar> \<le> 2 powi (max (ilog2 \<bar>x\<bar> - int p + 1) emin) / 2"
proof (cases "x = 0")
  case True
  with assms show ?thesis by (simp add: fl_round_def)
next
  case False
  define e where "e = max (ilog2 \<bar>x\<bar> - int p + 1) emin"
  have pe: "0 < (2::real) powi e" by simp
  from False assms have r: "r = of_int (rne (x / 2 powi e)) * 2 powi e"
    by (simp add: fl_round_def Let_def e_def split: if_splits)
  have "r - x = (of_int (rne (x / 2 powi e)) - x / 2 powi e) * 2 powi e"
    using pe by (simp add: r field_simps)
  then have "\<bar>r - x\<bar> = \<bar>of_int (rne (x / 2 powi e)) - x / 2 powi e\<bar> * 2 powi e"
    using pe by (simp add: abs_mult)
  also have "\<dots> \<le> 1 / 2 * 2 powi e"
    using rne_near[of "x / 2 powi e"] pe by (intro mult_right_mono) simp_all
  finally show ?thesis by (simp add: e_def)
qed

lemma fl_round_bound:
  assumes "0 < p" "emin \<le> 0" "\<bar>x\<bar> \<le> B" "1 \<le> B" "2 * B < 2 powi emax"
  shows "\<exists>r. fl_round p emin emax x = Finite r \<and> \<bar>r\<bar> \<le> 2 * B"
proof (cases "x = 0")
  case True
  with assms(4) show ?thesis by (simp add: fl_round_def)
next
  case False
  define e where "e = max (ilog2 \<bar>x\<bar> - int p + 1) emin"
  define r where "r = of_int (rne (x / 2 powi e)) * (2::real) powi e"
  have pe: "0 < (2::real) powi e" by simp
  have eB: "2 powi e \<le> B"
  proof (cases "emin \<le> ilog2 \<bar>x\<bar> - int p + 1")
    case True
    then have "e \<le> ilog2 \<bar>x\<bar>" using assms(1) by (simp add: e_def)
    then have "(2::real) powi e \<le> 2 powi ilog2 \<bar>x\<bar>" by (intro power_int_increasing) simp_all
    also have "\<dots> \<le> \<bar>x\<bar>" using False by (intro ilog2_bounds) simp
    finally show ?thesis using assms(3) by simp
  next
    case False
    then have "e \<le> 0" using assms(2) by (simp add: e_def)
    then have "(2::real) powi e \<le> 2 powi 0" by (intro power_int_increasing) simp_all
    with assms(4) show ?thesis by simp
  qed
  have "r - x = (of_int (rne (x / 2 powi e)) - x / 2 powi e) * 2 powi e"
    using pe by (simp add: r_def field_simps)
  then have "\<bar>r - x\<bar> = \<bar>of_int (rne (x / 2 powi e)) - x / 2 powi e\<bar> * 2 powi e"
    using pe by (simp add: abs_mult)
  also have "\<dots> \<le> 1 / 2 * 2 powi e"
    using rne_near[of "x / 2 powi e"] pe by (intro mult_right_mono) simp_all
  finally have "\<bar>r - x\<bar> \<le> B / 2" using eB by simp
  with assms(3) have rB: "\<bar>r\<bar> \<le> 2 * B" using assms(4) by linarith
  with assms(5) have "\<not> 2 powi emax \<le> \<bar>r\<bar>" by linarith
  with False have "fl_round p emin emax x = Finite r"
    by (simp add: fl_round_def Let_def e_def r_def)
  with rB show ?thesis by blast
qed

lemma round64_bound:
  assumes "\<bar>x\<bar> \<le> 2 ^ k" "k < 1023"
  shows "\<exists>r. round64 x = Finite r \<and> \<bar>r\<bar> \<le> 2 ^ Suc k"
proof -
  have "(2::real) ^ Suc k < 2 ^ 1024" using assms(2) by (intro power_strict_increasing) simp_all
  then have "2 * (2::real) ^ k < 2 powi 1024" by simp
  from fl_round_bound[of 53 "- 1074" x "2 ^ k" 1024, OF _ _ assms(1) _ this]
  show ?thesis by (simp add: round64_def)
qed

text \<open>
  The error of a rounding relative to its argument: at most \<open>2 ^ - p\<close> of it in the
  normal range, and half the least subnormal more below it.
\<close>

lemma fl_round_rel_error:
  assumes "fl_round p emin emax x = Finite r"
  shows "\<bar>r - x\<bar> \<le> \<bar>x\<bar> * 2 powi (- int p) + 2 powi (emin - 1)"
proof (cases "x = 0")
  case True
  with assms show ?thesis by (simp add: fl_round_def)
next
  case False
  let ?a = "ilog2 \<bar>x\<bar> - int p + 1"
  have h: "(2::real) powi (?a - 1) = 2 powi ilog2 \<bar>x\<bar> * 2 powi (- int p)"
    by (simp flip: power_int_add)
  have "(2::real) powi ilog2 \<bar>x\<bar> \<le> \<bar>x\<bar>" using False by (intro ilog2_bounds) simp
  then have a: "(2::real) powi (?a - 1) \<le> \<bar>x\<bar> * 2 powi (- int p)"
    unfolding h by (intro mult_right_mono) simp_all
  have half: "(2::real) powi k / 2 = 2 powi (k - 1)" for k
    by (simp add: power_int_diff)
  from fl_round_error[OF assms]
  have "\<bar>r - x\<bar> \<le> 2 powi (max ?a emin - 1)" by (simp only: half)
  also have "\<dots> \<le> 2 powi (?a - 1) + 2 powi (emin - 1)"
    by (cases "?a \<le> emin") (simp_all add: max_def)
  finally show ?thesis using a by linarith
qed

lemma fl_round_rel_error_normal:
  assumes "fl_round p emin emax x = Finite r" and "2 powi (emin + int p - 1) \<le> \<bar>x\<bar>"
  shows "\<bar>r - x\<bar> \<le> \<bar>x\<bar> * 2 powi (- int p)"
proof -
  have "0 < (2::real) powi (emin + int p - 1)" by simp
  with assms(2) have "0 < \<bar>x\<bar>" by linarith
  then have x: "x \<noteq> 0" by simp
  let ?a = "ilog2 \<bar>x\<bar> - int p + 1"
  have "\<bar>x\<bar> < 2 powi (ilog2 \<bar>x\<bar> + 1)" using x by (intro ilog2_bounds) simp
  with assms(2) have "(2::real) powi (emin + int p - 1) < 2 powi (ilog2 \<bar>x\<bar> + 1)" by linarith
  then have "emin + int p - 1 < ilog2 \<bar>x\<bar> + 1"
    using power_int_increasing[of "ilog2 \<bar>x\<bar> + 1" "emin + int p - 1" "2::real"]
    by (cases "emin + int p - 1 < ilog2 \<bar>x\<bar> + 1") simp_all
  then have m: "max ?a emin = ?a" by simp
  have h: "(2::real) powi (?a - 1) = 2 powi ilog2 \<bar>x\<bar> * 2 powi (- int p)"
    by (simp flip: power_int_add)
  have "(2::real) powi ilog2 \<bar>x\<bar> \<le> \<bar>x\<bar>" using x by (intro ilog2_bounds) simp
  then have a: "(2::real) powi (?a - 1) \<le> \<bar>x\<bar> * 2 powi (- int p)"
    unfolding h by (intro mult_right_mono) simp_all
  have half: "(2::real) powi k / 2 = 2 powi (k - 1)" for k
    by (simp add: power_int_diff)
  from fl_round_error[OF assms(1)]
  have "\<bar>r - x\<bar> \<le> 2 powi (?a - 1)" by (simp only: half m)
  with a show ?thesis by linarith
qed

lemma round64_error:
  assumes "round64 x = Finite r"
  shows "\<bar>r - x\<bar> \<le> \<bar>x\<bar> / 2 ^ 53 + 1 / 2 ^ 1075"
  using fl_round_rel_error[of 53 "- 1074" 1024 x r] assms
  by (simp add: round64_def power_int_minus_divide)

lemma round64_error_normal:
  assumes "round64 x = Finite r" and "1 / 2 ^ 1022 \<le> \<bar>x\<bar>"
  shows "\<bar>r - x\<bar> \<le> \<bar>x\<bar> / 2 ^ 53"
  using fl_round_rel_error_normal[of 53 "- 1074" 1024 x r] assms
  by (simp add: round64_def power_int_minus_divide)

section \<open>Properties of the loop\<close>

lemma scan_Some_candidate:
  "scan levels prof tfs tmbps bitrate lvl rows nu = (Some r, nu') \<Longrightarrow>
   r \<in> set rows \<and> candidate levels prof tfs tmbps bitrate r"
  by (induction rows arbitrary: nu) (auto simp: candidate_def split: if_splits)

lemma scan_Some_lowest:
  "scan levels prof tfs tmbps bitrate lvl rows nu = (Some r, nu') \<Longrightarrow>
   sorted_wrt (\<lambda>a b. limit_level a < limit_level b) rows \<Longrightarrow>
   q \<in> set rows \<Longrightarrow> candidate levels prof tfs tmbps bitrate q \<Longrightarrow>
   limit_level r \<le> limit_level q"
proof (induction rows arbitrary: nu)
  case Nil
  then show ?case by simp
next
  case (Cons limit rest)
  show ?case
  proof (cases "candidate levels prof tfs tmbps bitrate limit")
    case True
    with Cons.prems(1) have "r = limit" by (auto simp: candidate_def)
    with Cons.prems(2,3) show ?thesis by (auto simp: less_imp_le)
  next
    case False
    with Cons.prems(4) have "q \<noteq> limit" by auto
    with Cons.prems(3) have q: "q \<in> set rest" by simp
    from False Cons.prems(1) obtain nu2 where
      "scan levels prof tfs tmbps bitrate lvl rest nu2 = (Some r, nu')"
      by (auto simp: candidate_def split: if_splits)
    from Cons.IH[OF this _ q Cons.prems(4)] Cons.prems(2) show ?thesis by simp
  qed
qed

lemma scan_None_iff:
  "(fst (scan levels prof tfs tmbps bitrate lvl rows nu) = None) =
   (\<forall>q \<in> set rows. \<not> candidate levels prof tfs tmbps bitrate q)"
  by (induction rows arbitrary: nu) (auto simp: candidate_def)

lemma scan_fst_indep:
  "fst (scan levels prof tfs tmbps bitrate lvl rows nu) =
   fst (scan levels prof tfs tmbps bitrate lvl' rows nu')"
  by (induction rows arbitrary: nu nu') auto

text \<open>
  When the loop breaks at \<open>r\<close>, \<open>needsUpdate\<close> is set exactly if it was set before the loop
  or a supported row below \<open>r\<close> has a level at or above \<open>info.v.level\<close>.
\<close>

lemma scan_needsUpdate:
  "scan levels prof tfs tmbps bitrate lvl rows nu = (Some r, nu') \<Longrightarrow>
   sorted_wrt (\<lambda>a b. limit_level a < limit_level b) rows \<Longrightarrow>
   nu' = (nu \<or> (\<exists>q \<in> set rows. supportsAtAll levels (limit_level q) \<and> lvl \<le> limit_level q
                    \<and> limit_level q < limit_level r))"
proof (induction rows arbitrary: nu)
  case Nil
  then show ?case by simp
next
  case (Cons limit rest)
  show ?case
  proof (cases "supportsAtAll levels (limit_level limit)")
    case False
    with Cons.prems(1) have "scan levels prof tfs tmbps bitrate lvl rest nu = (Some r, nu')"
      by simp
    from Cons.IH[OF this] Cons.prems(2) False show ?thesis by auto
  next
    case True
    show ?thesis
    proof (cases "meets prof tfs tmbps bitrate limit")
      case True
      with \<open>supportsAtAll levels (limit_level limit)\<close> Cons.prems(1)
      have "r = limit" "nu' = nu" by auto
      with Cons.prems(2) show ?thesis by (auto simp: not_less less_imp_le)
    next
      case False
      with True Cons.prems(1) have
        s: "scan levels prof tfs tmbps bitrate lvl rest
              (if lvl \<le> limit_level limit then True else nu) = (Some r, nu')"
        by simp
      from scan_Some_candidate[OF s] Cons.prems(2) have "limit_level limit < limit_level r"
        by auto
      with Cons.IH[OF s] Cons.prems(2) True show ?thesis by auto
    qed
  qed
qed

section \<open>Properties of the table\<close>

lemma fp_le_trans: "fp_le a b \<Longrightarrow> fp_le b c \<Longrightarrow> fp_le a c"
  by (cases a; cases b; cases c) auto

lemma kLimits_level_increasing:
  "sorted_wrt (\<lambda>a b. limit_level a < limit_level b) kLimits"
  by (simp add: kLimits_def mkLimits_def c2_values)

lemma kLimits_maxFS: "sorted_wrt (\<lambda>a b. maxFS a \<le> maxFS b) kLimits"
  by (simp add: kLimits_def mkLimits_def)

lemma kLimits_maxMBPS: "sorted_wrt (\<lambda>a b. fp_le (maxMBPS a) (maxMBPS b)) kLimits"
  by (simp add: kLimits_def mkLimits_def)

lemma kLimits_maxBR: "sorted_wrt (\<lambda>a b. maxBR a \<le> maxBR b) kLimits"
  by (simp add: kLimits_def mkLimits_def)


lemma kLimits_profile_maxBR:
  "sorted_wrt (\<lambda>a b. profile_maxBR p (maxBR a) \<le> profile_maxBR p (maxBR b)) kLimits"
proof -
  consider (x4) "PROFILE_AVC_HIGH_422 \<le> p"
    | (x3) "\<not> PROFILE_AVC_HIGH_422 \<le> p" "PROFILE_AVC_HIGH_10 \<le> p"
    | (x54) "\<not> PROFILE_AVC_HIGH_422 \<le> p" "\<not> PROFILE_AVC_HIGH_10 \<le> p" "PROFILE_AVC_HIGH \<le> p"
    | (x1) "\<not> PROFILE_AVC_HIGH_422 \<le> p" "\<not> PROFILE_AVC_HIGH_10 \<le> p" "\<not> PROFILE_AVC_HIGH \<le> p"
    by blast
  then show ?thesis
  proof cases
    case x4
    then have "profile_maxBR p = (\<lambda>br. br * 4)" by (simp add: profile_maxBR_def fun_eq_iff)
    then show ?thesis by (simp add: kLimits_def mkLimits_def)
  next
    case x3
    then have "profile_maxBR p = (\<lambda>br. br * 3)" by (simp add: profile_maxBR_def fun_eq_iff)
    then show ?thesis by (simp add: kLimits_def mkLimits_def)
  next
    case x54
    then have "profile_maxBR p = (\<lambda>br. of_nat (unat br * 5 div 4))"
      by (simp add: profile_maxBR_def fun_eq_iff)
    then show ?thesis by (simp add: kLimits_def mkLimits_def)
  next
    case x1
    then have "profile_maxBR p = (\<lambda>br. br)" by (simp add: profile_maxBR_def fun_eq_iff)
    then show ?thesis using kLimits_maxBR by simp
  qed
qed



lemma sorted_wrt_pair:
  fixes f :: "'a \<Rightarrow> 'b::linorder"
  assumes "sorted_wrt (\<lambda>a b. f a < f b) xs" "sorted_wrt R xs"
    and "a \<in> set xs" "b \<in> set xs" "f a \<le> f b"
  shows "a = b \<or> R a b"
  using assms by (induction xs) (auto simp: not_less[symmetric])

lemma meets_mono:
  assumes "r \<in> set kLimits" "q \<in> set kLimits" "limit_level r \<le> limit_level q"
    and "meets prof tfs tmbps bitrate r"
  shows "meets prof tfs tmbps bitrate q"
proof -
  note pair = sorted_wrt_pair[OF kLimits_level_increasing _ assms(1,2,3)]
  from pair[OF kLimits_maxFS] have fs: "maxFS r \<le> maxFS q" by auto
  from pair[OF kLimits_maxMBPS] assms(4) have mb: "fp_le tmbps (maxMBPS q)"
    by (auto simp: meets_def intro: fp_le_trans)
  from pair[OF kLimits_profile_maxBR[of prof]]
  have br: "profile_maxBR prof (maxBR r) \<le> profile_maxBR prof (maxBR q)" by auto
  from assms(4) fs mb br show ?thesis by (auto simp: meets_def)
qed

section \<open>Properties of the setter\<close>

lemma H264ProfileLevelSetter_unfold:
  "H264ProfileLevelSetter lowest profs levels info videoSize frameRate bitrate =
     (if (\<not> supportsAtAll profs (profile info) \<or> profile info < PROFILE_AVC_BASELINE)
         \<and> \<not> supportsAtAll profs PROFILE_AVC_BASELINE
      then (BadValue FieldProfile, lowest, info)
      else
        case scan levels (adopted_profile profs (profile info)) (targetFS videoSize)
               (targetMBPS videoSize frameRate) bitrate (start_level lowest (level info)) kLimits
               (\<not> supportsAtAll levels (start_level lowest (level info))) of
          (None, nu) \<Rightarrow>
            (BadValue FieldLevel, lowest,
             \<lparr>profile = adopted_profile profs (profile info),
              level = start_level lowest (level info)\<rparr>)
        | (Some limit, nu) \<Rightarrow>
            (Ok, if nu then start_level lowest (level info) else lowest,
             \<lparr>profile = adopted_profile profs (profile info),
              level = if nu then limit_level limit else start_level lowest (level info)\<rparr>))"
  by (cases info)
     (auto simp: H264ProfileLevelSetter_def adopted_profile_def start_level_def Let_def
           split: option.splits prod.splits bool.splits)

lemma H264ProfileLevelSetter_OkD:
  assumes "H264ProfileLevelSetter lowest profs levels info videoSize frameRate bitrate = (Ok, lowest', info')"
  obtains r nu where 
    "scan levels (adopted_profile profs (profile info)) (targetFS videoSize)
               (targetMBPS videoSize frameRate) bitrate (start_level lowest (level info)) kLimits
               (\<not> supportsAtAll levels (start_level lowest (level info))) = (Some r, nu)"
    "profile info' = adopted_profile profs (profile info)"
    "level info' = (if nu then limit_level r else start_level lowest (level info))"
    "lowest' = (if nu then start_level lowest (level info) else lowest)"
proof -
  obtain a nu where sc: "scan levels (adopted_profile profs (profile info)) (targetFS videoSize)
               (targetMBPS videoSize frameRate) bitrate (start_level lowest (level info)) kLimits
               (\<not> supportsAtAll levels (start_level lowest (level info))) = (a, nu)"
    by (cases "scan levels (adopted_profile profs (profile info)) (targetFS videoSize)
               (targetMBPS videoSize frameRate) bitrate (start_level lowest (level info)) kLimits
               (\<not> supportsAtAll levels (start_level lowest (level info)))") 
  show thesis
  proof (cases a)
    case None
    with assms sc show ?thesis
      by (simp add: H264ProfileLevelSetter_unfold split: if_splits)
  next
    case (Some r)
    with assms sc have "profile info' = adopted_profile profs (profile info)"
      "level info' = (if nu then limit_level r else start_level lowest (level info))"
      "lowest' = (if nu then start_level lowest (level info) else lowest)"
      by (auto simp add: H264ProfileLevelSetter_unfold split: if_splits)
    with sc Some that show ?thesis by blast
  qed
qed



lemma candidate_antimono_bitrate:
  "b1 \<le> b2 \<Longrightarrow> candidate levels prof tfs tmbps b2 q \<Longrightarrow> candidate levels prof tfs tmbps b1 q"
  by (auto simp: candidate_def meets_def)

lemma scan_bitrate_mono:
  assumes "b1 \<le> b2"
    and "scan levels prof tfs tmbps b2 lvl kLimits nu = (Some r2, nu2)"
  obtains r1 nu1 where "scan levels prof tfs tmbps b1 lvl kLimits nu = (Some r1, nu1)"
    "limit_level r1 \<le> limit_level r2"
proof -
  from scan_Some_candidate[OF assms(2)] have r2: "r2 \<in> set kLimits"
    and c2: "candidate levels prof tfs tmbps b2 r2" by auto
  from candidate_antimono_bitrate[OF assms(1) c2]
  have c1: "candidate levels prof tfs tmbps b1 r2" .
  with r2 have "fst (scan levels prof tfs tmbps b1 lvl kLimits nu) \<noteq> None"
    by (auto simp: scan_None_iff)
  then obtain r1 nu1 where s1: "scan levels prof tfs tmbps b1 lvl kLimits nu = (Some r1, nu1)"
    by (cases "scan levels prof tfs tmbps b1 lvl kLimits nu") auto
  from scan_Some_lowest[OF s1 kLimits_level_increasing r2 c1]
  have "limit_level r1 \<le> limit_level r2" .
  with s1 that show thesis by blast
qed

lemma H264ProfileLevelSetter_bitrate_mono:
  assumes b: "b1 \<le> b2"
    and ok2: "H264ProfileLevelSetter lowest profs levels info videoSize frameRate b2 = (Ok, l2, i2)"
  obtains l1 i1 where
    "H264ProfileLevelSetter lowest profs levels info videoSize frameRate b1 = (Ok, l1, i1)"
    "level i1 \<le> level i2"
proof -
  let ?s = "start_level lowest (level info)"
  let ?p = "adopted_profile profs (profile info)"
  let ?nu = "\<not> supportsAtAll levels ?s"
  from ok2 obtain r2 nu2 where
    s2: "scan levels ?p (targetFS videoSize) (targetMBPS videoSize frameRate) b2 ?s kLimits ?nu
         = (Some r2, nu2)"
    and lv2: "level i2 = (if nu2 then limit_level r2 else ?s)"
    by (rule H264ProfileLevelSetter_OkD)
  from b s2 obtain r1 nu1 where
    s1: "scan levels ?p (targetFS videoSize) (targetMBPS videoSize frameRate) b1 ?s kLimits ?nu
         = (Some r1, nu1)"
    and le: "limit_level r1 \<le> limit_level r2"
    by (rule scan_bitrate_mono)
  from ok2 have np: "\<not> ((\<not> supportsAtAll profs (profile info) \<or> profile info < PROFILE_AVC_BASELINE)
         \<and> \<not> supportsAtAll profs PROFILE_AVC_BASELINE)"
    by (auto simp: H264ProfileLevelSetter_unfold split: if_splits)
  define l1 where "l1 = (if nu1 then ?s else lowest)"
  define i1 where "i1 = \<lparr>profile = ?p, level = if nu1 then limit_level r1 else ?s\<rparr>"
  from np s1 have ok1:
    "H264ProfileLevelSetter lowest profs levels info videoSize frameRate b1 = (Ok, l1, i1)"
    by (simp add: H264ProfileLevelSetter_unfold l1_def i1_def)
  have lv1: "level i1 = (if nu1 then limit_level r1 else ?s)"
    by (simp add: i1_def)
  note n1 = scan_needsUpdate[OF s1 kLimits_level_increasing]
  note n2 = scan_needsUpdate[OF s2 kLimits_level_increasing]
  have "level i1 \<le> level i2"
  proof (cases nu1)
    case True
    with n1 have "\<not> supportsAtAll levels ?s
          \<or> (\<exists>q \<in> set kLimits. supportsAtAll levels (limit_level q)
                \<and> ?s \<le> limit_level q \<and> limit_level q < limit_level r1)"
      by simp
    then consider "\<not> supportsAtAll levels ?s"
      | q where "q \<in> set kLimits" "supportsAtAll levels (limit_level q)"
          "?s \<le> limit_level q" "limit_level q < limit_level r1"
      by blast
    then have nu2
    proof cases
      case 1
      with n2 show ?thesis by simp
    next
      case 2
      from 2(4) le have "limit_level q < limit_level r2" by simp
      with 2(1-3) have "\<exists>q \<in> set kLimits. supportsAtAll levels (limit_level q)
          \<and> ?s \<le> limit_level q \<and> limit_level q < limit_level r2"
        by blast
      with n2 show ?thesis by simp
    qed
    with True le lv1 lv2 show ?thesis by simp
  next
    case False
    show ?thesis
    proof (cases nu2)
      case True
      with n2 have "\<not> supportsAtAll levels ?s
          \<or> (\<exists>q \<in> set kLimits. supportsAtAll levels (limit_level q)
                \<and> ?s \<le> limit_level q \<and> limit_level q < limit_level r2)"
        by simp
      moreover from False n1 have "supportsAtAll levels ?s" by simp
      ultimately obtain q where "q \<in> set kLimits" "?s \<le> limit_level q"
        "limit_level q < limit_level r2"
        by blast
      then have "?s \<le> limit_level r2" by simp
      with True False lv1 lv2 show ?thesis by simp
    next
      case nu2: False
      with False lv1 lv2 show ?thesis by simp
    qed
  qed
  with ok1 that show thesis by blast
qed

section \<open>The scenario of the default configuration\<close>

text \<open>
  A picture of 320 by 240 at 30 frames per second and 64000 bits per second, the defaults
  of the interface: 300 macroblocks per frame, 9000 per second.
\<close>

lemma scenario_targetFS: "targetFS \<lparr>width = 320, height = 240\<rparr> = 300"
  by (simp add: targetFS_def)

lemma scenario_targetMBPS: "targetMBPS \<lparr>width = 320, height = 240\<rparr> (Finite 30) = Finite 9000"
  by (simp add: targetMBPS_def scenario_targetFS round32_def fl_round_def ilog2_def
        bitlength.simps rne_def Let_def)


lemmas scenario_simps =
  scenario_targetFS scenario_targetMBPS kLimits_def mkLimits_def h264_levels_def
  supportsAtAll_def meets_def profile_maxBR_def c2_values


lemma scenario_level_1:
  "H264ProfileLevelSetter LEVEL_UNUSED [PROFILE_AVC_BASELINE] h264_levels
     \<lparr>profile = PROFILE_AVC_BASELINE, level = LEVEL_AVC_1\<rparr>
     \<lparr>width = 320, height = 240\<rparr> (Finite 30) 64000
   = (Ok, LEVEL_AVC_1, \<lparr>profile = PROFILE_AVC_BASELINE, level = LEVEL_AVC_1_3\<rparr>)"
  by (simp add: H264ProfileLevelSetter_def scenario_simps)



section \<open>C10: the table is ordered, and feasibility goes upward\<close>

text \<open>
  C10. The rows of \<open>kLimits\<close> are in strictly increasing order of level, and each of the
  three limits never decreases from a row to a later one. So a row that meets a
  configuration (test of line 152, for any profile) is followed only by rows that meet it.
\<close>

theorem kLimits_ordered_feasibility_upward:
  "sorted_wrt (\<lambda>a b. limit_level a < limit_level b) kLimits
   \<and> sorted_wrt (\<lambda>a b. fp_le (maxMBPS a) (maxMBPS b)) kLimits
   \<and> sorted_wrt (\<lambda>a b. maxFS a \<le> maxFS b) kLimits
   \<and> sorted_wrt (\<lambda>a b. maxBR a \<le> maxBR b) kLimits
   \<and> (\<forall>r \<in> set kLimits. \<forall>q \<in> set kLimits.
         limit_level r \<le> limit_level q \<longrightarrow> meets prof tfs tmbps bitrate r
         \<longrightarrow> meets prof tfs tmbps bitrate q)"
  using kLimits_level_increasing kLimits_maxMBPS kLimits_maxFS kLimits_maxBR meets_mono
  by blast

theorem kLimits_ordered_feasibility_upward_witness:
  "mkLimits LEVEL_AVC_1_3 11880 396 768000 \<in> set kLimits
   \<and> mkLimits LEVEL_AVC_4_1 245760 8192 50000000 \<in> set kLimits
   \<and> limit_level (mkLimits LEVEL_AVC_1_3 11880 396 768000)
       \<le> limit_level (mkLimits LEVEL_AVC_4_1 245760 8192 50000000)
   \<and> meets PROFILE_AVC_BASELINE 300 (Finite 9000) 64000 (mkLimits LEVEL_AVC_1_3 11880 396 768000)
   \<and> meets PROFILE_AVC_BASELINE 300 (Finite 9000) 64000
       (mkLimits LEVEL_AVC_4_1 245760 8192 50000000)"
proof -
  have r: "mkLimits LEVEL_AVC_1_3 11880 396 768000 \<in> set kLimits"
    and q: "mkLimits LEVEL_AVC_4_1 245760 8192 50000000 \<in> set kLimits"
    by (simp_all add: kLimits_def)
  have le: "limit_level (mkLimits LEVEL_AVC_1_3 11880 396 768000)
       \<le> limit_level (mkLimits LEVEL_AVC_4_1 245760 8192 50000000)"
    by (simp add: mkLimits_def c2_values)
  have m: "meets PROFILE_AVC_BASELINE 300 (Finite 9000) 64000
             (mkLimits LEVEL_AVC_1_3 11880 396 768000)"
    by (simp add: meets_def mkLimits_def profile_maxBR_def c2_values)
  from kLimits_ordered_feasibility_upward[of PROFILE_AVC_BASELINE 300 "Finite 9000" 64000]
    r q le m
  have "meets PROFILE_AVC_BASELINE 300 (Finite 9000) 64000
          (mkLimits LEVEL_AVC_4_1 245760 8192 50000000)"
    by blast
  with r q le m show ?thesis by blast
qed

section \<open>C1: which level the setter leaves\<close>




section \<open>C2: the level left by a successful call is feasible\<close>



section \<open>C4: a higher bitrate never lowers the level\<close>

text \<open>
  C4. For bitrates \<open>b1 \<le> b2\<close> and everything else equal: if the loop finds a row for
  \<open>b2\<close> it finds one for \<open>b1\<close>, of a level that is not higher (the row it finds is the
  lowest supported feasible one); and if the setter succeeds for \<open>b2\<close> it succeeds for
  \<open>b1\<close> and leaves a level that is not higher.
\<close>

theorem resolved_level_monotone_in_bitrate:
  assumes "b1 \<le> b2"
  shows "(\<forall>r2. fst (scan levels prof tfs tmbps b2 lvl kLimits nu) = Some r2 \<longrightarrow>
            (\<exists>r1. fst (scan levels prof tfs tmbps b1 lvl kLimits nu) = Some r1
                  \<and> limit_level r1 \<le> limit_level r2))
       \<and> (fst (H264ProfileLevelSetter lowest profs levels info videoSize frameRate b2) = Ok \<longrightarrow>
            fst (H264ProfileLevelSetter lowest profs levels info videoSize frameRate b1) = Ok
            \<and> level (snd (snd (H264ProfileLevelSetter lowest profs levels info videoSize frameRate b1)))
              \<le> level (snd (snd (H264ProfileLevelSetter lowest profs levels info videoSize frameRate b2))))"
proof (intro conjI allI impI)
  fix r2
  assume "fst (scan levels prof tfs tmbps b2 lvl kLimits nu) = Some r2"
  then obtain nu2 where "scan levels prof tfs tmbps b2 lvl kLimits nu = (Some r2, nu2)"
    by (cases "scan levels prof tfs tmbps b2 lvl kLimits nu") auto
  from scan_bitrate_mono[OF assms this]
  show "\<exists>r1. fst (scan levels prof tfs tmbps b1 lvl kLimits nu) = Some r1
                  \<and> limit_level r1 \<le> limit_level r2"
    by (metis fst_conv)
next
  assume "fst (H264ProfileLevelSetter lowest profs levels info videoSize frameRate b2) = Ok"
  then obtain l2 i2 where
    ok2: "H264ProfileLevelSetter lowest profs levels info videoSize frameRate b2 = (Ok, l2, i2)"
    by (cases "H264ProfileLevelSetter lowest profs levels info videoSize frameRate b2") auto
  from H264ProfileLevelSetter_bitrate_mono[OF assms ok2] obtain l1 i1 where
    ok1: "H264ProfileLevelSetter lowest profs levels info videoSize frameRate b1 = (Ok, l1, i1)"
    and le: "level i1 \<le> level i2" by blast
  from ok1 show "fst (H264ProfileLevelSetter lowest profs levels info videoSize frameRate b1) = Ok"
    by simp
  from ok1 ok2 le
  show "level (snd (snd (H264ProfileLevelSetter lowest profs levels info videoSize frameRate b1)))
      \<le> level (snd (snd (H264ProfileLevelSetter lowest profs levels info videoSize frameRate b2)))"
    by simp
qed

theorem resolved_level_monotone_in_bitrate_witness:
  "(64000 :: 32 word) \<le> 1000000
   \<and> fst (scan h264_levels PROFILE_AVC_BASELINE 300 (Finite 9000) 1000000 LEVEL_AVC_1 kLimits
        False) = Some (mkLimits LEVEL_AVC_2 11880 396 2000000)
   \<and> fst (scan h264_levels PROFILE_AVC_BASELINE 300 (Finite 9000) 64000 LEVEL_AVC_1 kLimits
        False) = Some (mkLimits LEVEL_AVC_1_3 11880 396 768000)
   \<and> limit_level (mkLimits LEVEL_AVC_1_3 11880 396 768000)
       \<le> limit_level (mkLimits LEVEL_AVC_2 11880 396 2000000)
   \<and> H264ProfileLevelSetter LEVEL_UNUSED [PROFILE_AVC_BASELINE] h264_levels
       \<lparr>profile = PROFILE_AVC_BASELINE, level = LEVEL_AVC_1\<rparr>
       \<lparr>width = 320, height = 240\<rparr> (Finite 30) 1000000
     = (Ok, LEVEL_AVC_1, \<lparr>profile = PROFILE_AVC_BASELINE, level = LEVEL_AVC_2\<rparr>)
   \<and> H264ProfileLevelSetter LEVEL_UNUSED [PROFILE_AVC_BASELINE] h264_levels
       \<lparr>profile = PROFILE_AVC_BASELINE, level = LEVEL_AVC_1\<rparr>
       \<lparr>width = 320, height = 240\<rparr> (Finite 30) 64000
     = (Ok, LEVEL_AVC_1, \<lparr>profile = PROFILE_AVC_BASELINE, level = LEVEL_AVC_1_3\<rparr>)
   \<and> LEVEL_AVC_1_3 \<le> LEVEL_AVC_2"
proof -
  have le: "(64000 :: 32 word) \<le> 1000000" by simp
  have s2: "fst (scan h264_levels PROFILE_AVC_BASELINE 300 (Finite 9000) 1000000 LEVEL_AVC_1
        kLimits False) = Some (mkLimits LEVEL_AVC_2 11880 396 2000000)"
    by (simp add: scenario_simps)
  have s1: "fst (scan h264_levels PROFILE_AVC_BASELINE 300 (Finite 9000) 64000 LEVEL_AVC_1
        kLimits False) = Some (mkLimits LEVEL_AVC_1_3 11880 396 768000)"
    by (simp add: scenario_simps)
  have h2: "H264ProfileLevelSetter LEVEL_UNUSED [PROFILE_AVC_BASELINE] h264_levels
       \<lparr>profile = PROFILE_AVC_BASELINE, level = LEVEL_AVC_1\<rparr>
       \<lparr>width = 320, height = 240\<rparr> (Finite 30) 1000000
     = (Ok, LEVEL_AVC_1, \<lparr>profile = PROFILE_AVC_BASELINE, level = LEVEL_AVC_2\<rparr>)"
    by (simp add: H264ProfileLevelSetter_def scenario_simps)
  note inst = resolved_level_monotone_in_bitrate[OF le,
      where levels = h264_levels and prof = PROFILE_AVC_BASELINE and tfs = 300
        and tmbps = "Finite 9000" and lvl = LEVEL_AVC_1 and nu = False
        and lowest = LEVEL_UNUSED and profs = "[PROFILE_AVC_BASELINE]"
        and info = "\<lparr>profile = PROFILE_AVC_BASELINE, level = LEVEL_AVC_1\<rparr>"
        and videoSize = "\<lparr>width = 320, height = 240\<rparr>" and frameRate = "Finite 30"]
  from inst s2 s1
  have a: "limit_level (mkLimits LEVEL_AVC_1_3 11880 396 768000)
       \<le> limit_level (mkLimits LEVEL_AVC_2 11880 396 2000000)"
    by auto
  from inst h2 scenario_level_1 have b: "LEVEL_AVC_1_3 \<le> LEVEL_AVC_2"
    by simp
  from le s2 s1 a h2 scenario_level_1 b show ?thesis by blast
qed

section \<open>C5: a second call with the same inputs changes nothing\<close>

text \<open>
  C5. If a call of the setter returns a result, leaves a value in the static and a
  profile and level in \<open>info\<close>, then the next call with the same profile, proposed level,
  size, frame rate and bitrate, started from the static the first call left, returns the
  same result and leaves the same static, profile and level.
\<close>

theorem H264ProfileLevelSetter_idempotent:
  assumes "H264ProfileLevelSetter lowest profs levels info videoSize frameRate bitrate
             = (res, lowest', info')"
  shows "H264ProfileLevelSetter lowest' profs levels info videoSize frameRate bitrate
             = (res, lowest', info')"
proof -
  have s: "start_level (start_level lowest (level info)) (level info) = start_level lowest (level info)"
    by (simp add: start_level_def)
  from assms show ?thesis
    by (auto simp: H264ProfileLevelSetter_unfold s split: if_splits option.splits prod.splits)
qed

theorem H264ProfileLevelSetter_idempotent_witness:
  "H264ProfileLevelSetter LEVEL_UNUSED [PROFILE_AVC_BASELINE] h264_levels
     \<lparr>profile = PROFILE_AVC_BASELINE, level = LEVEL_AVC_1\<rparr>
     \<lparr>width = 320, height = 240\<rparr> (Finite 30) 64000
   = (Ok, LEVEL_AVC_1, \<lparr>profile = PROFILE_AVC_BASELINE, level = LEVEL_AVC_1_3\<rparr>)
   \<and> H264ProfileLevelSetter LEVEL_AVC_1 [PROFILE_AVC_BASELINE] h264_levels
     \<lparr>profile = PROFILE_AVC_BASELINE, level = LEVEL_AVC_1\<rparr>
     \<lparr>width = 320, height = 240\<rparr> (Finite 30) 64000
   = (Ok, LEVEL_AVC_1, \<lparr>profile = PROFILE_AVC_BASELINE, level = LEVEL_AVC_1_3\<rparr>)"
  using H264ProfileLevelSetter_idempotent[OF scenario_level_1] scenario_level_1
  by simp

section \<open>C3: the static is shared by all interface objects\<close>




section \<open>C6: the profile is kept, replaced by the default, or refused\<close>

lemma compile_profiles_valid:
  "supportsAtAll (compile_profiles c sps) p \<Longrightarrow> IsValidProfileForCodec c p"
  by (auto simp: compile_profiles_def supportsAtAll_def)

text \<open>
  C6. Let the values of the profile field be those \<open>Initialize\<close> compiles from the
  device for the codec, so that a supported profile is in the valid range of the codec.
  For the H264 and the VP9 setter alike: a supported profile is left unchanged and no
  error names the profile; an unsupported one is replaced by the default (baseline,
  VP9 profile 0) when the default is supported; and when neither is supported the setter
  returns the bad-value error for the profile. The VP9 setter returns \<open>Ok\<close> in the first
  two cases; the H264 setter goes on to the level.
\<close>

theorem profile_setters_keep_substitute_or_fail:
  "(let profs = compile_profiles H264 sps;
        out = H264ProfileLevelSetter lowest profs levels info videoSize frameRate bitrate
    in (supportsAtAll profs (profile info) \<and> IsValidProfileForCodec H264 (profile info)
          \<longrightarrow> fst out \<noteq> BadValue FieldProfile \<and> profile (snd (snd out)) = profile info)
     \<and> (\<not> (supportsAtAll profs (profile info) \<and> IsValidProfileForCodec H264 (profile info))
          \<and> supportsAtAll profs PROFILE_AVC_BASELINE
          \<longrightarrow> fst out \<noteq> BadValue FieldProfile
              \<and> profile (snd (snd out)) = PROFILE_AVC_BASELINE)
     \<and> (\<not> supportsAtAll profs (profile info) \<and> \<not> supportsAtAll profs PROFILE_AVC_BASELINE
          \<longrightarrow> fst out = BadValue FieldProfile))
   \<and> (let profs = compile_profiles VP9 sps;
          out = VP9ProfileLevelSetter profs info videoSize frameRate bitrate
      in (supportsAtAll profs (profile info) \<and> IsValidProfileForCodec VP9 (profile info)
            \<longrightarrow> out = (Ok, info))
       \<and> (\<not> (supportsAtAll profs (profile info) \<and> IsValidProfileForCodec VP9 (profile info))
            \<and> supportsAtAll profs PROFILE_VP9_0
            \<longrightarrow> out = (Ok, info\<lparr>profile := PROFILE_VP9_0\<rparr>))
       \<and> (\<not> supportsAtAll profs (profile info) \<and> \<not> supportsAtAll profs PROFILE_VP9_0
            \<longrightarrow> fst out = BadValue FieldProfile))"
proof -
  let ?h = "compile_profiles H264 sps"
  let ?v = "compile_profiles VP9 sps"
  let ?scan = "scan levels (adopted_profile ?h (profile info)) (targetFS videoSize)
               (targetMBPS videoSize frameRate) bitrate (start_level lowest (level info)) kLimits
               (\<not> supportsAtAll levels (start_level lowest (level info)))"
  have hv: "supportsAtAll ?h p \<Longrightarrow> \<not> p < PROFILE_AVC_BASELINE" for p
    using compile_profiles_valid[of H264 sps p] by (auto simp: not_less)
  have vv: "supportsAtAll ?v p \<Longrightarrow> \<not> p < PROFILE_VP9_0" for p
    using compile_profiles_valid[of VP9 sps p] by (auto simp: not_less)
  obtain a nu where sc: "?scan = (a, nu)" by (cases ?scan)
  have h1: "supportsAtAll ?h (profile info) \<Longrightarrow>
        fst (H264ProfileLevelSetter lowest ?h levels info videoSize frameRate bitrate)
          \<noteq> BadValue FieldProfile
        \<and> profile (snd (snd (H264ProfileLevelSetter lowest ?h levels info videoSize frameRate
              bitrate))) = profile info"
    using hv[of "profile info"] sc
    by (cases a) (simp_all add: H264ProfileLevelSetter_unfold adopted_profile_def)
  have h2: "\<not> supportsAtAll ?h (profile info) \<Longrightarrow> supportsAtAll ?h PROFILE_AVC_BASELINE \<Longrightarrow>
        fst (H264ProfileLevelSetter lowest ?h levels info videoSize frameRate bitrate)
          \<noteq> BadValue FieldProfile
        \<and> profile (snd (snd (H264ProfileLevelSetter lowest ?h levels info videoSize frameRate
              bitrate))) = PROFILE_AVC_BASELINE"
    using sc
    by (cases a) (simp_all add: H264ProfileLevelSetter_unfold adopted_profile_def)
  have h3: "\<not> supportsAtAll ?h (profile info) \<Longrightarrow> \<not> supportsAtAll ?h PROFILE_AVC_BASELINE \<Longrightarrow>
        fst (H264ProfileLevelSetter lowest ?h levels info videoSize frameRate bitrate)
          = BadValue FieldProfile"
    by (simp add: H264ProfileLevelSetter_unfold)
  have v1: "supportsAtAll ?v (profile info) \<Longrightarrow>
        VP9ProfileLevelSetter ?v info videoSize frameRate bitrate = (Ok, info)"
    using vv[of "profile info"] by (simp add: VP9ProfileLevelSetter_def)
  have v2: "\<not> supportsAtAll ?v (profile info) \<Longrightarrow> supportsAtAll ?v PROFILE_VP9_0 \<Longrightarrow>
        VP9ProfileLevelSetter ?v info videoSize frameRate bitrate
          = (Ok, info\<lparr>profile := PROFILE_VP9_0\<rparr>)"
    by (simp add: VP9ProfileLevelSetter_def)
  have v3: "\<not> supportsAtAll ?v (profile info) \<Longrightarrow> \<not> supportsAtAll ?v PROFILE_VP9_0 \<Longrightarrow>
        fst (VP9ProfileLevelSetter ?v info videoSize frameRate bitrate) = BadValue FieldProfile"
    by (simp add: VP9ProfileLevelSetter_def)
  from h1 h2 h3 v1 v2 v3 compile_profiles_valid[of H264 sps "profile info"]
    compile_profiles_valid[of VP9 sps "profile info"]
  show ?thesis unfolding Let_def by blast
qed

theorem profile_setters_keep_substitute_or_fail_witness:
  "compile_profiles H264
     [\<lparr>sp_profile = PROFILE_AVC_BASELINE, max_resolution = (1920, 1080)\<rparr>,
      \<lparr>sp_profile = PROFILE_VP9_0, max_resolution = (1920, 1080)\<rparr>] = [PROFILE_AVC_BASELINE]
   \<and> compile_profiles VP9
     [\<lparr>sp_profile = PROFILE_AVC_BASELINE, max_resolution = (1920, 1080)\<rparr>,
      \<lparr>sp_profile = PROFILE_VP9_0, max_resolution = (1920, 1080)\<rparr>] = [PROFILE_VP9_0]
   \<and> profile (snd (snd (H264ProfileLevelSetter LEVEL_UNUSED [PROFILE_AVC_BASELINE]
        h264_levels \<lparr>profile = PROFILE_AVC_BASELINE, level = LEVEL_AVC_4_1\<rparr>
        \<lparr>width = 320, height = 240\<rparr> (Finite 30) 64000))) = PROFILE_AVC_BASELINE
   \<and> profile (snd (snd (H264ProfileLevelSetter LEVEL_UNUSED [PROFILE_AVC_BASELINE]
        h264_levels \<lparr>profile = PROFILE_VP8_0, level = LEVEL_AVC_4_1\<rparr>
        \<lparr>width = 320, height = 240\<rparr> (Finite 30) 64000))) = PROFILE_AVC_BASELINE
   \<and> VP9ProfileLevelSetter [PROFILE_VP9_0]
        \<lparr>profile = PROFILE_VP9_0, level = LEVEL_VP9_1\<rparr>
        \<lparr>width = 320, height = 240\<rparr> (Finite 30) 64000
      = (Ok, \<lparr>profile = PROFILE_VP9_0, level = LEVEL_VP9_1\<rparr>)
   \<and> VP9ProfileLevelSetter [PROFILE_VP9_0]
        \<lparr>profile = PROFILE_VP8_0, level = LEVEL_VP9_1\<rparr>
        \<lparr>width = 320, height = 240\<rparr> (Finite 30) 64000
      = (Ok, \<lparr>profile = PROFILE_VP9_0, level = LEVEL_VP9_1\<rparr>)
   \<and> compile_profiles H264 [] = []
   \<and> compile_profiles VP9 [] = []
   \<and> fst (H264ProfileLevelSetter LEVEL_UNUSED [] h264_levels
        \<lparr>profile = PROFILE_AVC_BASELINE, level = LEVEL_AVC_4_1\<rparr>
        \<lparr>width = 320, height = 240\<rparr> (Finite 30) 64000) = BadValue FieldProfile
   \<and> fst (VP9ProfileLevelSetter []
        \<lparr>profile = PROFILE_VP9_0, level = LEVEL_VP9_1\<rparr>
        \<lparr>width = 320, height = 240\<rparr> (Finite 30) 64000) = BadValue FieldProfile"
proof -
  let ?sps = "[\<lparr>sp_profile = PROFILE_AVC_BASELINE, max_resolution = (1920, 1080)\<rparr>,
               \<lparr>sp_profile = PROFILE_VP9_0, max_resolution = (1920, 1080)\<rparr>]"
  let ?vs = "\<lparr>width = 320, height = 240\<rparr>"
  have h: "compile_profiles H264 ?sps = [PROFILE_AVC_BASELINE]"
    and v: "compile_profiles VP9 ?sps = [PROFILE_VP9_0]"
    and e: "compile_profiles H264 [] = []" "compile_profiles VP9 [] = []"
    by (simp_all add: compile_profiles_def c2_values)
  have sup: "supportsAtAll [PROFILE_AVC_BASELINE] PROFILE_AVC_BASELINE"
    "\<not> supportsAtAll [PROFILE_AVC_BASELINE] PROFILE_VP8_0"
    "supportsAtAll [PROFILE_VP9_0] PROFILE_VP9_0"
    "\<not> supportsAtAll [PROFILE_VP9_0] PROFILE_VP8_0"
    "\<not> supportsAtAll [] PROFILE_AVC_BASELINE"
    "\<not> supportsAtAll [] PROFILE_VP9_0"
    by (simp_all add: supportsAtAll_def c2_values)
  have val: "IsValidProfileForCodec H264 PROFILE_AVC_BASELINE"
    "IsValidProfileForCodec VP9 PROFILE_VP9_0"
    by (simp_all add: c2_values)
  note kept = profile_setters_keep_substitute_or_fail
    [of ?sps LEVEL_UNUSED h264_levels "\<lparr>profile = PROFILE_AVC_BASELINE, level = LEVEL_AVC_4_1\<rparr>"
        ?vs "Finite 30" 64000, unfolded Let_def h v]
  note subst = profile_setters_keep_substitute_or_fail
    [of ?sps LEVEL_UNUSED h264_levels "\<lparr>profile = PROFILE_VP8_0, level = LEVEL_AVC_4_1\<rparr>"
        ?vs "Finite 30" 64000, unfolded Let_def h v]
  note kept9 = profile_setters_keep_substitute_or_fail
    [of ?sps LEVEL_UNUSED h264_levels "\<lparr>profile = PROFILE_VP9_0, level = LEVEL_VP9_1\<rparr>"
        ?vs "Finite 30" 64000, unfolded Let_def h v]
  note subst9 = profile_setters_keep_substitute_or_fail
    [of ?sps LEVEL_UNUSED h264_levels "\<lparr>profile = PROFILE_VP8_0, level = LEVEL_VP9_1\<rparr>"
        ?vs "Finite 30" 64000, unfolded Let_def h v]
  note fail = profile_setters_keep_substitute_or_fail
    [of "[]" LEVEL_UNUSED h264_levels "\<lparr>profile = PROFILE_AVC_BASELINE, level = LEVEL_AVC_4_1\<rparr>"
        ?vs "Finite 30" 64000, unfolded Let_def e]
  note fail9 = profile_setters_keep_substitute_or_fail
    [of "[]" LEVEL_UNUSED h264_levels "\<lparr>profile = PROFILE_VP9_0, level = LEVEL_VP9_1\<rparr>"
        ?vs "Finite 30" 64000, unfolded Let_def e]
  from kept sup val
  have c1: "profile (snd (snd (H264ProfileLevelSetter LEVEL_UNUSED [PROFILE_AVC_BASELINE]
        h264_levels \<lparr>profile = PROFILE_AVC_BASELINE, level = LEVEL_AVC_4_1\<rparr>
        ?vs (Finite 30) 64000))) = PROFILE_AVC_BASELINE"
    by simp
  from subst sup
  have c2: "profile (snd (snd (H264ProfileLevelSetter LEVEL_UNUSED [PROFILE_AVC_BASELINE]
        h264_levels \<lparr>profile = PROFILE_VP8_0, level = LEVEL_AVC_4_1\<rparr>
        ?vs (Finite 30) 64000))) = PROFILE_AVC_BASELINE"
    by simp
  from kept9 sup val
  have c3: "VP9ProfileLevelSetter [PROFILE_VP9_0]
        \<lparr>profile = PROFILE_VP9_0, level = LEVEL_VP9_1\<rparr> ?vs (Finite 30) 64000
      = (Ok, \<lparr>profile = PROFILE_VP9_0, level = LEVEL_VP9_1\<rparr>)"
    by simp
  from subst9 sup
  have c4: "VP9ProfileLevelSetter [PROFILE_VP9_0]
        \<lparr>profile = PROFILE_VP8_0, level = LEVEL_VP9_1\<rparr> ?vs (Finite 30) 64000
      = (Ok, \<lparr>profile = PROFILE_VP9_0, level = LEVEL_VP9_1\<rparr>)"
    by simp
  from fail sup
  have c5: "fst (H264ProfileLevelSetter LEVEL_UNUSED [] h264_levels
        \<lparr>profile = PROFILE_AVC_BASELINE, level = LEVEL_AVC_4_1\<rparr>
        ?vs (Finite 30) 64000) = BadValue FieldProfile"
    by simp
  from fail9 sup
  have c6: "fst (VP9ProfileLevelSetter []
        \<lparr>profile = PROFILE_VP9_0, level = LEVEL_VP9_1\<rparr>
        ?vs (Finite 30) 64000) = BadValue FieldProfile"
    by simp
  from h v e c1 c2 c3 c4 c5 c6 show ?thesis by blast
qed

section \<open>C7: the status after Initialize\<close>

text \<open>
  C7, as stated: after a failed initialisation the status tells which of the three causes
  occurred. It does not: an unknown component name and a device without a valid profile
  for the codec both leave \<open>C2_BAD_VALUE\<close>.
\<close>

theorem init_status_same_for_two_causes_counterexample:
  "getCodecFromComponentName V4L2ComponentName ''c2.v4l2.unknown.encoder'' = None
   \<and> Initialize V4L2ComponentName
        (Some [\<lparr>sp_profile = PROFILE_AVC_BASELINE, max_resolution = (1920, 1080)\<rparr>])
        ''c2.v4l2.unknown.encoder'' = (C2_BAD_VALUE, None)
   \<and> getCodecFromComponentName V4L2ComponentName ''c2.v4l2.avc.encoder'' = Some H264
   \<and> compile_profiles H264 [\<lparr>sp_profile = PROFILE_VP9_0, max_resolution = (1920, 1080)\<rparr>] = []
   \<and> Initialize V4L2ComponentName
        (Some [\<lparr>sp_profile = PROFILE_VP9_0, max_resolution = (1920, 1080)\<rparr>])
        ''c2.v4l2.avc.encoder'' = (C2_BAD_VALUE, None)"
  by (simp add: Initialize_def getCodecFromComponentName_def V4L2ComponentName_def
        compile_profiles_def c2_values)

text \<open>
  C7, amended. \<open>Initialize\<close> leaves \<open>C2_CORRUPTED\<close> when the device cannot be created
  (whatever the name), \<open>C2_BAD_VALUE\<close> when the device exists and the name is not one of
  the three encoder names, \<open>C2_BAD_VALUE\<close> again when the name is known and the device
  reports no profile that is valid for the codec, and \<open>C2_OK\<close> in every other case. So
  the status separates a missing device from the other two causes, and not these from
  each other. Parameters are defined exactly when the status is \<open>C2_OK\<close>.
\<close>

theorem Initialize_status:
  "(device = None \<longrightarrow> fst (Initialize names device name) = C2_CORRUPTED)
   \<and> (\<forall>sps. device = Some sps \<and> getCodecFromComponentName names name = None
         \<longrightarrow> fst (Initialize names device name) = C2_BAD_VALUE)
   \<and> (\<forall>sps c. device = Some sps \<and> getCodecFromComponentName names name = Some c
         \<and> compile_profiles c sps = []
         \<longrightarrow> fst (Initialize names device name) = C2_BAD_VALUE)
   \<and> (\<forall>sps c. device = Some sps \<and> getCodecFromComponentName names name = Some c
         \<and> compile_profiles c sps \<noteq> []
         \<longrightarrow> fst (Initialize names device name) = C2_OK)
   \<and> ((snd (Initialize names device name) = None)
        = (fst (Initialize names device name) \<noteq> C2_OK))"
  by (auto simp: Initialize_def Let_def split: option.splits)

theorem Initialize_status_witness:
  "getCodecFromComponentName V4L2ComponentName ''c2.v4l2.avc.encoder'' = Some H264
   \<and> compile_profiles H264 [\<lparr>sp_profile = PROFILE_AVC_BASELINE, max_resolution = (1920, 1080)\<rparr>]
       \<noteq> []
   \<and> fst (Initialize V4L2ComponentName
        (Some [\<lparr>sp_profile = PROFILE_AVC_BASELINE, max_resolution = (1920, 1080)\<rparr>])
        ''c2.v4l2.avc.encoder'') = C2_OK
   \<and> fst (Initialize V4L2ComponentName None ''c2.v4l2.avc.encoder'') = C2_CORRUPTED
   \<and> getCodecFromComponentName V4L2ComponentName ''c2.v4l2.unknown.encoder'' = None
   \<and> fst (Initialize V4L2ComponentName
        (Some [\<lparr>sp_profile = PROFILE_AVC_BASELINE, max_resolution = (1920, 1080)\<rparr>])
        ''c2.v4l2.unknown.encoder'') = C2_BAD_VALUE
   \<and> compile_profiles H264 [] = []
   \<and> fst (Initialize V4L2ComponentName (Some []) ''c2.v4l2.avc.encoder'') = C2_BAD_VALUE"
proof -
  let ?sps = "[\<lparr>sp_profile = PROFILE_AVC_BASELINE, max_resolution = (1920, 1080)\<rparr>]"
  have n: "getCodecFromComponentName V4L2ComponentName ''c2.v4l2.avc.encoder'' = Some H264"
    and u: "getCodecFromComponentName V4L2ComponentName ''c2.v4l2.unknown.encoder'' = None"
    by (simp_all add: getCodecFromComponentName_def V4L2ComponentName_def)
  have p: "compile_profiles H264 ?sps \<noteq> []" and e: "compile_profiles H264 [] = []"
    by (simp_all add: compile_profiles_def c2_values)
  from Initialize_status[of "Some ?sps" V4L2ComponentName "''c2.v4l2.avc.encoder''"] n p
  have ok: "fst (Initialize V4L2ComponentName (Some ?sps) ''c2.v4l2.avc.encoder'') = C2_OK"
    by blast
  from Initialize_status[of None V4L2ComponentName "''c2.v4l2.avc.encoder''"]
  have dev: "fst (Initialize V4L2ComponentName None ''c2.v4l2.avc.encoder'') = C2_CORRUPTED"
    by blast
  from Initialize_status[of "Some ?sps" V4L2ComponentName "''c2.v4l2.unknown.encoder''"] u
  have name: "fst (Initialize V4L2ComponentName (Some ?sps) ''c2.v4l2.unknown.encoder'')
              = C2_BAD_VALUE"
    by blast
  from Initialize_status[of "Some []" V4L2ComponentName "''c2.v4l2.avc.encoder''"] n e
  have none: "fst (Initialize V4L2ComponentName (Some []) ''c2.v4l2.avc.encoder'')
              = C2_BAD_VALUE"
    by blast
  from n p ok dev u name e none show ?thesis by blast
qed

section \<open>C8: the intra-refresh period\<close>

text \<open>
  C8. The setter always returns \<open>Ok\<close>. If the requested period is less than 1 it leaves
  the mode disabled and the period 0; otherwise it leaves the mode arbitrary, whatever
  mode was requested, and the period as requested.
\<close>

theorem IntraRefreshPeriodSetter_result:
  "fst (IntraRefreshPeriodSetter \<lparr>mode = m, period = p\<rparr>) = Ok
   \<and> (fp_less p (Finite 1) \<longrightarrow>
        snd (IntraRefreshPeriodSetter \<lparr>mode = m, period = p\<rparr>)
          = \<lparr>mode = INTRA_REFRESH_DISABLED, period = Finite 0\<rparr>)
   \<and> (\<not> fp_less p (Finite 1) \<longrightarrow>
        snd (IntraRefreshPeriodSetter \<lparr>mode = m, period = p\<rparr>)
          = \<lparr>mode = INTRA_REFRESH_ARBITRARY, period = p\<rparr>)"
  by (simp add: IntraRefreshPeriodSetter_def)

theorem IntraRefreshPeriodSetter_result_witness:
  "fp_less (Finite 0) (Finite 1)
   \<and> IntraRefreshPeriodSetter \<lparr>mode = INTRA_REFRESH_ARBITRARY, period = Finite 0\<rparr>
     = (Ok, \<lparr>mode = INTRA_REFRESH_DISABLED, period = Finite 0\<rparr>)
   \<and> \<not> fp_less (Finite 5) (Finite 1)
   \<and> IntraRefreshPeriodSetter \<lparr>mode = INTRA_REFRESH_DISABLED, period = Finite 5\<rparr>
     = (Ok, \<lparr>mode = INTRA_REFRESH_ARBITRARY, period = Finite 5\<rparr>)"
proof -
  have a: "fp_less (Finite 0) (Finite 1)" and b: "\<not> fp_less (Finite 5) (Finite 1)"
    by simp_all
  from IntraRefreshPeriodSetter_result[of INTRA_REFRESH_ARBITRARY "Finite 0"] a
  have c: "IntraRefreshPeriodSetter \<lparr>mode = INTRA_REFRESH_ARBITRARY, period = Finite 0\<rparr>
     = (Ok, \<lparr>mode = INTRA_REFRESH_DISABLED, period = Finite 0\<rparr>)"
    by (simp add: prod_eq_iff)
  from IntraRefreshPeriodSetter_result[of INTRA_REFRESH_DISABLED "Finite 5"] b
  have d: "IntraRefreshPeriodSetter \<lparr>mode = INTRA_REFRESH_DISABLED, period = Finite 5\<rparr>
     = (Ok, \<lparr>mode = INTRA_REFRESH_ARBITRARY, period = Finite 5\<rparr>)"
    by (simp add: prod_eq_iff)
  from a b c d show ?thesis by blast
qed

section \<open>C9: the key-frame period in frames\<close>

lemma key_frame_period_double_steps:
  fixes v :: "64 word" and f :: real
  assumes f: "\<bar>f\<bar> \<le> 2 ^ 128"
  obtains y z x where
    "round64 (real_of_int (sint v)) = Finite y"
    "round64 (y / 1000000) = Finite z"
    "round64 (z * f) = Finite x"
    "\<bar>x - real_of_int (sint v) / 1000000 * f\<bar>
       \<le> \<bar>real_of_int (sint v) / 1000000 * f\<bar> / 2 ^ 51 + 1 / 2 ^ 1075"
proof -
  define a where "a = real_of_int (sint v)"
  have "- (2 ^ 63) \<le> sint v" "sint v < 2 ^ 63"
    using sint_ge[of v] sint_lt[of v] by simp_all
  then have "\<bar>sint v\<bar> \<le> 2 ^ 63" by linarith
  then have "real_of_int \<bar>sint v\<bar> \<le> real_of_int (2 ^ 63)" by (simp only: of_int_le_iff)
  then have a63: "\<bar>a\<bar> \<le> 2 ^ 63" by (simp add: a_def)
  from round64_bound[OF a63] obtain y where
    y: "round64 a = Finite y" "\<bar>y\<bar> \<le> 2 ^ 64" by auto
  have "\<bar>y / 1000000\<bar> \<le> 2 ^ 64 / 1000000" using y(2) by (simp add: divide_right_mono)
  also have "\<dots> \<le> 2 ^ 45" by simp
  finally obtain z where z: "round64 (y / 1000000) = Finite z" "\<bar>z\<bar> \<le> 2 ^ 46"
    using round64_bound[of "y / 1000000" 45] by auto
  have "\<bar>z * f\<bar> \<le> 2 ^ 46 * 2 ^ 128"
    unfolding abs_mult using z(2) f by (intro mult_mono) simp_all
  also have "\<dots> = 2 ^ 174" by simp
  finally obtain x where x: "round64 (z * f) = Finite x"
    using round64_bound[of "z * f" 174] by auto
  have b1: "\<bar>y - a\<bar> \<le> \<bar>a\<bar> / 2 ^ 53"
  proof (cases "sint v = 0")
    case True
    with y(1) show ?thesis by (simp add: a_def round64_def fl_round_def)
  next
    case False
    then have "1 \<le> \<bar>sint v\<bar>" by linarith
    then have "real_of_int 1 \<le> real_of_int \<bar>sint v\<bar>" by (simp only: of_int_le_iff)
    then have "1 \<le> \<bar>a\<bar>" by (simp add: a_def)
    moreover have "1 / 2 ^ 1022 \<le> (1::real)" by simp
    ultimately have "1 / 2 ^ 1022 \<le> \<bar>a\<bar>" by linarith
    from round64_error_normal[OF y(1) this] show ?thesis .
  qed
  define P where "P = (2::real) ^ 53"
  have P8: "8 \<le> P" by (simp add: P_def)
  then have P0: "0 < P" by linarith
  note b1' = b1[folded P_def]
  have "\<bar>a\<bar> / P \<le> \<bar>a\<bar> / 8" using P8 by (intro divide_left_mono) simp_all
  with b1' have yb: "\<bar>y\<bar> \<le> 9 / 8 * \<bar>a\<bar>" by linarith
  have b2: "\<bar>z - y / 1000000\<bar> \<le> \<bar>y\<bar> / 1000000 / P"
  proof (cases "sint v = 0")
    case True
    with y(1) have "y = 0" by (simp add: a_def round64_def fl_round_def)
    with z(1) P0 show ?thesis by (simp add: round64_def fl_round_def)
  next
    case False
    then have "1 \<le> \<bar>sint v\<bar>" by linarith
    then have "real_of_int 1 \<le> real_of_int \<bar>sint v\<bar>" by (simp only: of_int_le_iff)
    then have "1 \<le> \<bar>a\<bar>" by (simp add: a_def)
    moreover have "\<bar>a\<bar> / P \<le> \<bar>a\<bar> / 8" using P8 by (intro divide_left_mono) simp_all
    ultimately have "1 / 2 \<le> \<bar>y\<bar>" using b1' by linarith
    then have "1 / 2 / 1000000 \<le> \<bar>y\<bar> / 1000000" by (simp add: divide_right_mono)
    moreover have "1 / 2 ^ 1022 \<le> (1::real) / 2 / 1000000" by simp
    ultimately have "1 / 2 ^ 1022 \<le> \<bar>y / 1000000\<bar>" by simp
    from round64_error_normal[OF z(1) this] show ?thesis by (simp add: P_def)
  qed
  have "\<bar>y\<bar> / 1000000 / P \<le> \<bar>y\<bar> / 1000000 / 8"
    using P8 by (intro divide_left_mono) simp_all
  with b2 yb have zb: "\<bar>z\<bar> \<le> 81 / 64 * (\<bar>a\<bar> / 1000000)" by linarith
  have b3: "\<bar>x - z * f\<bar> \<le> \<bar>z\<bar> * \<bar>f\<bar> / P + 1 / 2 ^ 1075"
    using round64_error[OF x] by (simp add: abs_mult P_def)
  define t where "t = \<bar>a\<bar> / 1000000 * \<bar>f\<bar>"
  define T where "T = t / P"
  have T0: "0 \<le> T" using P0 by (simp add: T_def t_def)
  have "\<bar>z\<bar> * \<bar>f\<bar> \<le> 81 / 64 * (\<bar>a\<bar> / 1000000) * \<bar>f\<bar>"
    using zb by (intro mult_right_mono) simp_all
  then have "\<bar>z\<bar> * \<bar>f\<bar> / P \<le> 81 / 64 * (\<bar>a\<bar> / 1000000) * \<bar>f\<bar> / P"
    using P0 by (intro divide_right_mono) simp_all
  also have "81 / 64 * (\<bar>a\<bar> / 1000000) * \<bar>f\<bar> / P = 81 / 64 * T"
    by (simp add: T_def t_def)
  finally have c3: "\<bar>z\<bar> * \<bar>f\<bar> / P \<le> 81 / 64 * T" .
  have "\<bar>y\<bar> / 1000000 / P \<le> 9 / 8 * \<bar>a\<bar> / 1000000 / P"
    using yb P0 by (intro divide_right_mono) simp_all
  with b2 have "\<bar>z - y / 1000000\<bar> \<le> 9 / 8 * \<bar>a\<bar> / 1000000 / P" by linarith
  then have m2: "\<bar>f\<bar> * \<bar>z - y / 1000000\<bar> \<le> \<bar>f\<bar> * (9 / 8 * \<bar>a\<bar> / 1000000 / P)"
    by (intro mult_left_mono) simp_all
  have "\<bar>f * (z - y / 1000000)\<bar> = \<bar>f\<bar> * \<bar>z - y / 1000000\<bar>" by (rule abs_mult)
  also note m2
  also have "\<bar>f\<bar> * (9 / 8 * \<bar>a\<bar> / 1000000 / P) = 9 / 8 * T"
    by (simp add: T_def t_def)
  finally have c2: "\<bar>f * (z - y / 1000000)\<bar> \<le> 9 / 8 * T" .
  have m1: "\<bar>f\<bar> / 1000000 * \<bar>y - a\<bar> \<le> \<bar>f\<bar> / 1000000 * (\<bar>a\<bar> / P)"
    using b1' by (intro mult_left_mono) simp_all
  have "\<bar>f / 1000000 * (y - a)\<bar> = \<bar>f\<bar> / 1000000 * \<bar>y - a\<bar>" by (simp add: abs_mult)
  also note m1
  also have "\<bar>f\<bar> / 1000000 * (\<bar>a\<bar> / P) = T" by (simp add: T_def t_def)
  finally have c1: "\<bar>f / 1000000 * (y - a)\<bar> \<le> T" .
  have "x - a / 1000000 * f = (x - z * f) + f * (z - y / 1000000) + f / 1000000 * (y - a)"
    by (simp add: field_simps)
  then have "\<bar>x - a / 1000000 * f\<bar>
      \<le> \<bar>x - z * f\<bar> + \<bar>f * (z - y / 1000000)\<bar> + \<bar>f / 1000000 * (y - a)\<bar>"
    by linarith
  with b3 c3 c2 c1 T0 have "\<bar>x - a / 1000000 * f\<bar> \<le> 4 * T + 1 / 2 ^ 1075"
    by linarith
  moreover have "4 * T = \<bar>a / 1000000 * f\<bar> / 2 ^ 51" by (simp add: T_def t_def abs_mult P_def)
  ultimately have "\<bar>x - a / 1000000 * f\<bar> \<le> \<bar>a / 1000000 * f\<bar> / 2 ^ 51 + 1 / 2 ^ 1075"
    by simp
  with y(1) z(1) x that show thesis unfolding a_def by blast
qed

lemma clamp_to_uint32:
  "double_to_uint32 (fp_max (fp_min (fp_round (Finite x)) (Finite UINT32_MAX)) (Finite 1))
   = Some (word_of_int (max 1 (min 4294967295 (c_round x))))"
proof -
  define k where "k = max 1 (min 4294967295 (c_round x))"
  have k: "1 \<le> k" "k \<le> 4294967295" by (simp_all add: k_def)
  have "fp_max (fp_min (fp_round (Finite x)) (Finite UINT32_MAX)) (Finite 1) = Finite (of_int k)"
    by (simp add: fp_max_def fp_min_def UINT32_MAX_def k_def)
  moreover have "double_to_uint32 (Finite (of_int k)) = Some (word_of_int k)"
    using k by (simp add: trunc_toward_zero_def)
  ultimately show ?thesis by (simp add: k_def)
qed

lemma round64_examples:
  "round64 600 = Finite 600"
  "round64 1000000 = Finite 1000000"
  "round64 2000000 = Finite 2000000"
  "round64 1 = Finite 1"
  "round64 2 = Finite 2"
  "round64 30 = Finite 30"
  "round64 60 = Finite 60"
  by (simp_all add: round64_def fl_round_def ilog2_def bitlength.simps rne_def Let_def)

text \<open>
  C9, as stated: outside the two cases that give 0, the result is
  \<open>round(periodUs / 1e6 * frameRate)\<close> clamped into 1 to \<open>UINT32_MAX\<close>. With the formula
  read in exact arithmetic it is not: for a period of 600 microseconds at 2500 frames per
  second the formula is 1.5, which rounds to 2, and the source returns 1, because the
  \<open>double\<close> nearest to 0.0006 is below it and the product comes out below 1.5.
\<close>

theorem key_frame_period_not_exact_formula_counterexample:
  "\<not> (sint (600 :: 64 word) < 0 \<or> (600 :: 64 word) = INT64_MAX)
   \<and> getKeyFramePeriod 600 (Finite 2500) = Some 1
   \<and> real_of_int (sint (600 :: 64 word)) / 1000000 * 2500 = 3 / 2
   \<and> c_round (3 / 2) = 2
   \<and> (word_of_int (max 1 (min 4294967295 (c_round (3 / 2)))) :: 32 word) = 2
   \<and> (1 :: 32 word) \<noteq> 2"
proof -
  have "getKeyFramePeriod 600 (Finite 2500) = Some 1"
    by (simp add: getKeyFramePeriod_def INT64_MAX_def key_frame_period_double_def round64_def
          fl_round_def ilog2_def bitlength.simps rne_def Let_def fp_max_def fp_min_def
          UINT32_MAX_def c_round_def trunc_toward_zero_def)
  moreover have "c_round (3 / 2) = 2" by (simp add: c_round_def)
  ultimately show ?thesis by (simp add: INT64_MAX_def)
qed

text \<open>
  C9, amended. \<open>getKeyFramePeriod\<close> returns 0 when the stored period is negative or
  \<open>INT64_MAX\<close>. Otherwise, for every finite \<open>float\<close> frame rate \<open>f\<close> (a \<open>float\<close> is below
  \<open>2 ^ 128\<close> in magnitude), it returns \<open>x\<close> rounded to the nearest integer, halves away
  from zero, and clamped into 1 to \<open>UINT32_MAX\<close>, where \<open>x\<close> is
  \<open>periodUs / 1e6 * frameRate\<close> as line 458 computes it: the period converted to
  \<open>double\<close>, the quotient by \<open>1e6\<close> and the product with \<open>f\<close>, each rounded to the nearest
  \<open>double\<close>. This \<open>x\<close> is finite and differs from the exact value of the formula by at
  most \<open>2 ^ - 51\<close> of it plus \<open>2 ^ - 1075\<close>.
\<close>

theorem getKeyFramePeriod_value:
  "(sint v < 0 \<or> v = INT64_MAX \<longrightarrow> getKeyFramePeriod v fr = Some 0)
   \<and> (\<not> (sint v < 0 \<or> v = INT64_MAX) \<longrightarrow>
        (\<forall>f. \<bar>f\<bar> \<le> 2 ^ 128 \<longrightarrow>
          (\<exists>y z x.
             round64 (real_of_int (sint v)) = Finite y
           \<and> round64 (y / 1000000) = Finite z
           \<and> round64 (z * f) = Finite x
           \<and> \<bar>x - real_of_int (sint v) / 1000000 * f\<bar>
               \<le> \<bar>real_of_int (sint v) / 1000000 * f\<bar> / 2 ^ 51 + 1 / 2 ^ 1075
           \<and> getKeyFramePeriod v (Finite f)
               = Some (word_of_int (max 1 (min 4294967295 (c_round x)))))))"
proof (intro conjI impI allI)
  assume "sint v < 0 \<or> v = INT64_MAX"
  then show "getKeyFramePeriod v fr = Some 0" by (simp add: getKeyFramePeriod_def)
next
  fix f :: real
  assume n: "\<not> (sint v < 0 \<or> v = INT64_MAX)" and f: "\<bar>f\<bar> \<le> 2 ^ 128"
  from key_frame_period_double_steps[OF f, of v] obtain y z x where
    y: "round64 (real_of_int (sint v)) = Finite y"
    and z: "round64 (y / 1000000) = Finite z"
    and x: "round64 (z * f) = Finite x"
    and e: "\<bar>x - real_of_int (sint v) / 1000000 * f\<bar>
               \<le> \<bar>real_of_int (sint v) / 1000000 * f\<bar> / 2 ^ 51 + 1 / 2 ^ 1075"
    by blast
  from y z x have p: "key_frame_period_double v (Finite f) = Finite x"
    by (simp add: key_frame_period_double_def)
  with n have "getKeyFramePeriod v (Finite f) =
      double_to_uint32 (fp_max (fp_min (fp_round (Finite x)) (Finite UINT32_MAX)) (Finite 1))"
    by (simp add: getKeyFramePeriod_def Let_def del: fp_round.simps)
  then have "getKeyFramePeriod v (Finite f)
      = Some (word_of_int (max 1 (min 4294967295 (c_round x))))"
    by (simp only: clamp_to_uint32)
  with y z x e show "\<exists>y z x.
             round64 (real_of_int (sint v)) = Finite y
           \<and> round64 (y / 1000000) = Finite z
           \<and> round64 (z * f) = Finite x
           \<and> \<bar>x - real_of_int (sint v) / 1000000 * f\<bar>
               \<le> \<bar>real_of_int (sint v) / 1000000 * f\<bar> / 2 ^ 51 + 1 / 2 ^ 1075
           \<and> getKeyFramePeriod v (Finite f)
               = Some (word_of_int (max 1 (min 4294967295 (c_round x))))"
    by blast
qed

theorem getKeyFramePeriod_value_witness:
  "sint (- 1 :: 64 word) < 0
   \<and> getKeyFramePeriod (- 1) (Finite 30) = Some 0
   \<and> getKeyFramePeriod INT64_MAX (Finite 30) = Some 0
   \<and> \<not> (sint (1000000 :: 64 word) < 0 \<or> (1000000 :: 64 word) = INT64_MAX)
   \<and> \<not> (sint (2000000 :: 64 word) < 0 \<or> (2000000 :: 64 word) = INT64_MAX)
   \<and> \<bar>30 :: real\<bar> \<le> 2 ^ 128
   \<and> getKeyFramePeriod 1000000 (Finite 30) = Some 30
   \<and> getKeyFramePeriod 2000000 (Finite 30) = Some 60"
proof -
  have a: "sint (- 1 :: 64 word) < 0" by simp
  have b: "\<not> (sint (1000000 :: 64 word) < 0 \<or> (1000000 :: 64 word) = INT64_MAX)"
    and b2: "\<not> (sint (2000000 :: 64 word) < 0 \<or> (2000000 :: 64 word) = INT64_MAX)"
    by (simp_all add: INT64_MAX_def)
  have f: "\<bar>30 :: real\<bar> \<le> 2 ^ 128" by simp
  from getKeyFramePeriod_value[of "- 1" "Finite 30"] a
  have c: "getKeyFramePeriod (- 1) (Finite 30) = Some 0" by blast
  from getKeyFramePeriod_value[of INT64_MAX "Finite 30"]
  have d: "getKeyFramePeriod INT64_MAX (Finite 30) = Some 0" by blast
  from getKeyFramePeriod_value[of 1000000 "Finite 30"] b f
  obtain y z x where "round64 (real_of_int (sint (1000000 :: 64 word))) = Finite y"
    "round64 (y / 1000000) = Finite z" "round64 (z * 30) = Finite x"
    "getKeyFramePeriod 1000000 (Finite 30)
       = Some (word_of_int (max 1 (min 4294967295 (c_round x))))"
    by blast
  then have e: "getKeyFramePeriod 1000000 (Finite 30) = Some 30"
    by (auto simp: round64_examples c_round_def)
  from getKeyFramePeriod_value[of 2000000 "Finite 30"] b2 f
  obtain y z x where "round64 (real_of_int (sint (2000000 :: 64 word))) = Finite y"
    "round64 (y / 1000000) = Finite z" "round64 (z * 30) = Finite x"
    "getKeyFramePeriod 2000000 (Finite 30)
       = Some (word_of_int (max 1 (min 4294967295 (c_round x))))"
    by blast
  then have g: "getKeyFramePeriod 2000000 (Finite 30) = Some 60"
    by (auto simp: round64_examples c_round_def)
  from a b b2 c d e f g show ?thesis by blast
qed

end
